theory Spec2Isabelle
  imports Main "HOL-Library.Word" "HOL-Library.AList"
begin

section \<open>Gas profiler (gasprofile.js): values of the host language\<close>

text \<open>
  The profiler is a JavaScript program. A value that may be a string, \<open>null\<close> or
  \<open>undefined\<close> (a stack word, an address, a source-map field) is a \<open>jsval\<close>.
  Gas amounts, depths and line numbers are JSON integers and are modelled as \<open>int\<close>
  (exact in the host below \<open>2 ^ 53\<close>).
\<close>

datatype jsval = Undefined | Null | Str string

text \<open>Exceptions of the run, as values.\<close>

datatype error =
    TypeError \<comment> \<open>property read on \<open>undefined\<close>/\<open>null\<close>\<close>
  | AssertionError \<comment> \<open>a failed \<open>assert(...)\<close>\<close>
  | InvalidHex \<comment> \<open>a string outside the big-number library's hexadecimal domain\<close>

text \<open>JavaScript truthiness of such a value: \<open>!x\<close> is \<open>\<not> truthy x\<close>.\<close>

fun truthy :: "jsval \<Rightarrow> bool" where
  "truthy Undefined = False"
| "truthy Null = False"
| "truthy (Str s) = (s \<noteq> [])"

subsection \<open>strip0x\<close>

text \<open>
  \<^verbatim>\<open>hexStr && hexStr[0] === '0' && hexStr[1] === 'x' ? hexStr.substring(2) : hexStr\<close>
\<close>

fun strip0x_str :: "string \<Rightarrow> string" where
  "strip0x_str (a # b # rest) = (if a = CHR ''0'' \<and> b = CHR ''x'' then rest else a # b # rest)"
| "strip0x_str s = s"

fun strip0x :: "jsval \<Rightarrow> jsval" where
  "strip0x (Str s) = Str (strip0x_str s)"
| "strip0x v = v"

subsection \<open>The big-number library (bn.js), as used by normalizeAddress\<close>

text \<open>
  \<^verbatim>\<open>new BN(str, 16)\<close> reads a string of hexadecimal digits (either case) as a
  non-negative integer; the empty string reads as 0. The library is not part of this
  repository; outside its documented domain (a character that is no hexadecimal digit)
  the model answers \<open>None\<close>, which normalizeAddress turns into the error \<open>InvalidHex\<close>.
\<close>

definition hexDigitVal :: "char \<Rightarrow> nat option" where
  "hexDigitVal c =
     (let n = of_char c :: nat in
      if 48 \<le> n \<and> n \<le> 57 then Some (n - 48)
      else if 97 \<le> n \<and> n \<le> 102 then Some (n - 87)
      else if 65 \<le> n \<and> n \<le> 70 then Some (n - 55)
      else None)"

fun BN_parseHex_acc :: "nat \<Rightarrow> string \<Rightarrow> nat option" where
  "BN_parseHex_acc acc [] = Some acc"
| "BN_parseHex_acc acc (c # cs) =
     (case hexDigitVal c of
        None \<Rightarrow> None
      | Some d \<Rightarrow> BN_parseHex_acc (acc * 16 + d) cs)"

definition BN_parseHex :: "string \<Rightarrow> nat option" where
  "BN_parseHex s = BN_parseHex_acc 0 s"

text \<open>
  \<^verbatim>\<open>bn.toString(16, padding)\<close>: the lowercase hexadecimal digits of the number
  (\<open>0\<close> is \<open>''0''\<close>), then \<^verbatim>\<open>while (out.length % padding !== 0) out = '0' + out\<close>:
  zeros are prepended until the length is a multiple of \<open>padding\<close>. Nothing is ever cut.
\<close>

definition hexDigit :: "nat \<Rightarrow> char" where
  "hexDigit d = ''0123456789abcdef'' ! d"

fun toHex :: "nat \<Rightarrow> string" where
  "toHex n = (if n < 16 then [hexDigit n] else toHex (n div 16) @ [hexDigit (n mod 16)])"

declare toHex.simps [simp del]

definition BN_toString16 :: "nat \<Rightarrow> nat \<Rightarrow> string" where
  "BN_toString16 n padding =
     (let out = toHex n
      in replicate ((padding - length out mod padding) mod padding) (CHR ''0'') @ out)"

subsection \<open>normalizeAddress\<close>

text \<open>
  \<^verbatim>\<open>
  function normalizeAddress(addressHexStr) {
    if (!addressHexStr) { return addressHexStr; }
    const addressBN = new BN(strip0x(addressHexStr), 16);
    return addressBN.toString(16, 40);
  }\<close>
\<close>

definition normalizeAddress :: "jsval \<Rightarrow> error + jsval" where
  "normalizeAddress addressHexStr =
     (if \<not> truthy addressHexStr then Inr addressHexStr
      else case strip0x addressHexStr of
             Str h \<Rightarrow>
               (case BN_parseHex h of
                  None \<Rightarrow> Inl InvalidHex
                | Some addressBN \<Rightarrow> Inr (Str (BN_toString16 addressBN 40)))
           | v \<Rightarrow> Inr v)"

subsection \<open>The specification's reading of address normalisation\<close>

text \<open>
  The specification's words: take the low 20 bytes of the word and format them as 40
  lowercase hexadecimal characters with leading zeros. \<open>fixedHex k n\<close> writes the
  \<open>k\<close> low hexadecimal digits of \<open>n\<close>.
\<close>

fun fixedHex :: "nat \<Rightarrow> nat \<Rightarrow> string" where
  "fixedHex 0 n = []"
| "fixedHex (Suc k) n = fixedHex k (n div 16) @ [hexDigit (n mod 16)]"

definition low20Hex :: "nat \<Rightarrow> string" where
  "low20Hex v = fixedHex 40 (v mod 2 ^ 160)"

section \<open>PC-to-instruction mapper\<close>

text \<open>
  \<^verbatim>\<open>parseInt(str, 16)\<close> of the host: leading white space is skipped, then an optional
  sign, then an optional \<open>0x\<close>/\<open>0X\<close>, then the longest run of hexadecimal digits is
  read; with no digit at all the result is \<open>NaN\<close>, here \<open>None\<close>.
\<close>

definition isSpace :: "char \<Rightarrow> bool" where
  "isSpace c = (of_char c \<in> {9, 10, 11, 12, 13, 32 :: nat})"

definition isHexDigit :: "char \<Rightarrow> bool" where
  "isHexDigit c = (hexDigitVal c \<noteq> None)"

fun stripSign :: "string \<Rightarrow> int \<times> string" where
  "stripSign (c # cs) =
     (if c = CHR ''-'' then (-1, cs) else if c = CHR ''+'' then (1, cs) else (1, c # cs))"
| "stripSign [] = (1, [])"

fun stripRadixPrefix :: "string \<Rightarrow> string" where
  "stripRadixPrefix (a # b # rest) =
     (if a = CHR ''0'' \<and> (b = CHR ''x'' \<or> b = CHR ''X'') then rest else a # b # rest)"
| "stripRadixPrefix s = s"

definition hexValue :: "string \<Rightarrow> nat" where
  "hexValue ds = foldl (\<lambda>acc c. acc * 16 + (case hexDigitVal c of None \<Rightarrow> 0 | Some d \<Rightarrow> d)) 0 ds"

definition parseInt16 :: "string \<Rightarrow> int option" where
  "parseInt16 str =
     (let (sign, s1) = stripSign (dropWhile isSpace str);
          z = takeWhile isHexDigit (stripRadixPrefix s1)
      in if z = [] then None else Some (sign * int (hexValue z)))"

text \<open>
  \<^verbatim>\<open>codeHexStr[i]\<close>: a one-character string, or \<open>undefined\<close> past the end, which the
  string concatenation of the loop body turns into the text \<open>undefined\<close>.
\<close>

definition charAtText :: "string \<Rightarrow> nat \<Rightarrow> string" where
  "charAtText str i = (if i < length str then [str ! i] else ''undefined'')"

text \<open>
  The body of the loop of buildPcToInstructionMapping, after \<^verbatim>\<open>mapping[pc] = instructionIndex\<close>:
  \<^verbatim>\<open>
    const byteHex = codeHexStr[pc*2]+codeHexStr[pc*2+1];
    const byte = parseInt(byteHex, 16);
    if (byte >= 0x60 && byte <= 0x7f) {
        const n = byte-0x60+1; // number of immediates
        pc += (n+1);
    } else {
        pc += 1;
    }\<close>
  \<open>byteAt\<close> is \<open>byte\<close>, \<open>nextPc\<close> the new value of \<open>pc\<close>.
\<close>

definition byteAt :: "string \<Rightarrow> nat \<Rightarrow> int option" where
  "byteAt codeHexStr pc = parseInt16 (charAtText codeHexStr (pc * 2) @ charAtText codeHexStr (pc * 2 + 1))"

definition isPush :: "int option \<Rightarrow> bool" where
  "isPush byte = (case byte of None \<Rightarrow> False | Some b \<Rightarrow> 0x60 \<le> b \<and> b \<le> 0x7f)"

definition nextPc :: "string \<Rightarrow> nat \<Rightarrow> nat" where
  "nextPc codeHexStr pc =
     (let byte = byteAt codeHexStr pc
      in if isPush byte then pc + (nat (the byte - 0x60 + 1) + 1) else pc + 1)"

text \<open>
  \<^verbatim>\<open>
  function buildPcToInstructionMapping (codeHexStr) {
    const mapping = {};
    let instructionIndex = 0;
    for (let pc=0; pc<codeHexStr.length/2;) {
      mapping[pc] = instructionIndex;
      ...
      instructionIndex += 1;
    }
    return mapping;
  }\<close>
  The mapping is an association list in insertion order; \<open>pc < length / 2\<close> is a
  comparison of reals in the host, that is \<open>2 * pc < length\<close>. There is no failing path.
\<close>

function buildPcLoop :: "string \<Rightarrow> nat \<Rightarrow> nat \<Rightarrow> (nat \<times> nat) list \<Rightarrow> (nat \<times> nat) list" where
  "buildPcLoop codeHexStr pc instructionIndex mapping =
     (if 2 * pc < length codeHexStr
      then buildPcLoop codeHexStr (nextPc codeHexStr pc) (instructionIndex + 1)
             (AList.update pc instructionIndex mapping)
      else mapping)"
  by pat_completeness auto
termination
proof (relation "measure (\<lambda>(codeHexStr, pc, instructionIndex, mapping). length codeHexStr - 2 * pc)")
  show "wf (measure (\<lambda>(codeHexStr, pc, instructionIndex, mapping). length codeHexStr - 2 * pc))"
    by simp
next
  fix codeHexStr :: string and pc instructionIndex :: nat and mapping :: "(nat \<times> nat) list"
  assume "2 * pc < length codeHexStr"
  then show "((codeHexStr, nextPc codeHexStr pc, instructionIndex + 1,
               AList.update pc instructionIndex mapping),
              (codeHexStr, pc, instructionIndex, mapping))
             \<in> measure (\<lambda>(codeHexStr, pc, instructionIndex, mapping). length codeHexStr - 2 * pc)"
    by (auto simp add: nextPc_def Let_def)
qed

declare buildPcLoop.simps [simp del]

definition buildPcToInstructionMapping :: "string \<Rightarrow> (nat \<times> nat) list" where
  "buildPcToInstructionMapping codeHexStr = buildPcLoop codeHexStr 0 0 []"

text \<open>
  The specification's words: a PUSH whose immediates extend past the end of the
  bytecode. At an instruction start \<open>pc\<close> this is a PUSH byte whose following
  instruction would start beyond the last byte.
\<close>

definition truncatedPush :: "string \<Rightarrow> nat \<Rightarrow> bool" where
  "truncatedPush codeHexStr pc =
     (isPush (byteAt codeHexStr pc) \<and> length codeHexStr < 2 * nextPc codeHexStr pc)"

text \<open>Invariant of the walk: a truncated PUSH can only be the entry written last.\<close>

definition truncLast :: "string \<Rightarrow> (nat \<times> nat) list \<Rightarrow> bool" where
  "truncLast code m = (\<forall>(p, i) \<in> set m. truncatedPush code p \<longrightarrow> last m = (p, i) \<and> Suc i = length m)"

section \<open>Source-map decoder\<close>

text \<open>
  \<^verbatim>\<open>str.split(sep)\<close> for a one-character separator (the result is never empty), and
  \<^verbatim>\<open>str.trim()\<close> for ASCII white space (tab, line feed, vertical tab, form feed,
  carriage return, space).
\<close>

fun splitFrom :: "char \<Rightarrow> string \<Rightarrow> string \<Rightarrow> string list" where
  "splitFrom sep cur [] = [cur]"
| "splitFrom sep cur (c # cs) =
     (if c = sep then cur # splitFrom sep [] cs else splitFrom sep (cur @ [c]) cs)"

definition split :: "char \<Rightarrow> string \<Rightarrow> string list" where
  "split sep str = splitFrom sep [] str"

definition trim :: "string \<Rightarrow> string" where
  "trim str = rev (dropWhile isSpace (rev (dropWhile isSpace str)))"

text \<open>
  Numbers of the host that the decoder produces. \<^verbatim>\<open>Number(x)\<close> is modelled on what
  the compiler writes into a source map, decimal integers with an optional sign
  (surrounded by optional white space; the empty text is 0); \<^verbatim>\<open>Number(undefined)\<close> and
  every other text is \<open>NaN\<close> here (the host would also read hexadecimal, fractional and
  exponent literals, which are outside this model).
\<close>

datatype jsnum = Num int | NaN

definition isDigit :: "char \<Rightarrow> bool" where
  "isDigit c = (48 \<le> (of_char c :: nat) \<and> (of_char c :: nat) \<le> 57)"

definition decValue :: "string \<Rightarrow> nat" where
  "decValue ds = foldl (\<lambda>acc c. acc * 10 + (of_char c - 48)) 0 ds"

definition Number_str :: "string \<Rightarrow> jsnum" where
  "Number_str str =
     (let t = trim str
      in if t = [] then Num 0
         else let (sign, ds) = stripSign t
              in if ds \<noteq> [] \<and> list_all isDigit ds then Num (sign * int (decValue ds)) else NaN)"

fun Number_js :: "jsval \<Rightarrow> jsnum" where
  "Number_js Undefined = NaN"
| "Number_js Null = Num 0"
| "Number_js (Str str) = Number_str str"

text \<open>One decoded source-map entry \<^verbatim>\<open>{s, l, f, j}\<close>.\<close>

record sm_entry =
  sm_s :: jsnum
  sm_l :: jsnum
  sm_f :: jsnum
  sm_j :: jsval

text \<open>
  \<^verbatim>\<open>let [s,l,f,j] = section.split(':')\<close>: a missing position is \<open>undefined\<close>.
\<close>

definition fieldAt :: "string list \<Rightarrow> nat \<Rightarrow> jsval" where
  "fieldAt parts k = (if k < length parts then Str (parts ! k) else Undefined)"

text \<open>
  \<^verbatim>\<open>if (s==='' || s===undefined) { s = prevS; } else { prevS = s; }\<close>
  returns the new values of \<open>(s, prevS)\<close>.
\<close>

definition inheritField :: "jsval \<Rightarrow> jsval \<Rightarrow> jsval \<times> jsval" where
  "inheritField x prev = (if x = Str [] \<or> x = Undefined then (prev, prev) else (x, x))"

text \<open>
  \<^verbatim>\<open>
  function parseSourceMap (raw) {
    let prevS, prevL, prevF, prevJ;
    return raw.trim().split(';').map(section=> {
      let [s,l,f,j] = section.split(':');
      ... (the four inheritance steps)
      return {s:Number(s), l:Number(l), f:Number(f), j};
    });
  }\<close>
\<close>

fun parseSections :: "jsval \<times> jsval \<times> jsval \<times> jsval \<Rightarrow> string list \<Rightarrow> sm_entry list" where
  "parseSections prev [] = []"
| "parseSections (prevS, prevL, prevF, prevJ) (section # rest) =
     (let parts = split (CHR '':'') section;
          (s, prevS') = inheritField (fieldAt parts 0) prevS;
          (l, prevL') = inheritField (fieldAt parts 1) prevL;
          (f, prevF') = inheritField (fieldAt parts 2) prevF;
          (j, prevJ') = inheritField (fieldAt parts 3) prevJ
      in \<lparr>sm_s = Number_js s, sm_l = Number_js l, sm_f = Number_js f, sm_j = j\<rparr>
         # parseSections (prevS', prevL', prevF', prevJ') rest)"

definition parseSourceMap :: "string \<Rightarrow> sm_entry list" where
  "parseSourceMap raw =
     parseSections (Undefined, Undefined, Undefined, Undefined) (split (CHR '';'') (trim raw))"

text \<open>A segment gives a field explicitly when the field is present and not empty.\<close>

definition explicit :: "jsval \<Rightarrow> bool" where
  "explicit x = (x \<noteq> Str [] \<and> x \<noteq> Undefined)"

text \<open>
  The same field of the previous decoded entry; before the first entry the variables
  \<open>prevS\<close>, \<dots> are still \<open>undefined\<close>, which is the value \<open>init\<close>.
\<close>

definition prevField :: "(sm_entry \<Rightarrow> 'a) \<Rightarrow> 'a \<Rightarrow> sm_entry list \<Rightarrow> nat \<Rightarrow> 'a" where
  "prevField fld init es k = (if k = 0 then init else fld (es ! (k - 1)))"

section \<open>Trace logs, gas cost, call target\<close>

text \<open>One entry of \<^verbatim>\<open>trace.structLogs\<close>; the stack is bottom-to-top.\<close>

record structLog =
  pc :: nat
  op :: string
  gas :: int
  gasCost :: int
  depth :: int
  stack :: "string list"

text \<open>
  \<^verbatim>\<open>
  function getGasCost(log) {
    if (log.gasCost < 0 && (log.op === 'RETURN' || log.op === 'REVERT' || log.op === 'STOP')) {
      console.error(`WARN skipping invalid gasCost value ...`);
      return 0;
    } else {
      return log.gasCost;
    }
  }\<close>
  \<open>getGasCost\<close> is the value returned, \<open>getGasCostWarns\<close> says whether the warning is
  printed.
\<close>

definition getGasCostWarns :: "structLog \<Rightarrow> bool" where
  "getGasCostWarns lg =
     (gasCost lg < 0 \<and> (op lg = ''RETURN'' \<or> op lg = ''REVERT'' \<or> op lg = ''STOP''))"

definition getGasCost :: "structLog \<Rightarrow> int" where
  "getGasCost lg = (if getGasCostWarns lg then 0 else gasCost lg)"

text \<open>\<^verbatim>\<open>log.stack[log.stack.length - k]\<close>: \<open>undefined\<close> when the stack is too short.\<close>

definition stackFromTop :: "structLog \<Rightarrow> nat \<Rightarrow> jsval" where
  "stackFromTop lg k =
     (if 0 < k \<and> k \<le> length (stack lg) then Str (stack lg ! (length (stack lg) - k)) else Undefined)"

record callTarget =
  ct_addressHexStr :: jsval
  ct_isConstructionCall :: bool

text \<open>
  The forward scan of the CREATE case:
  \<^verbatim>\<open>
  let nextLogSameDepth = null;
  for (++iLog; iLog < structLogs.length && !nextLogSameDepth; ++iLog) {
    const nextLog = structLogs[iLog];
    if (nextLog.depth === log.depth) { nextLogSameDepth = nextLog; }
  }\<close>
  \<open>scanSameDepth structLogs d iLog\<close> is the loop from index \<open>iLog\<close> (already incremented).
\<close>

function scanSameDepth :: "structLog list \<Rightarrow> int \<Rightarrow> nat \<Rightarrow> structLog option" where
  "scanSameDepth structLogs d iLog =
     (if iLog < length structLogs
      then (if depth (structLogs ! iLog) = d then Some (structLogs ! iLog)
            else scanSameDepth structLogs d (iLog + 1))
      else None)"
  by pat_completeness auto
termination
  by (relation "measure (\<lambda>(structLogs, d, iLog). length structLogs - iLog)") auto

declare scanSameDepth.simps [simp del]

text \<open>
  \<^verbatim>\<open>function getCallTarget(log, iLog, structLogs)\<close>. The only failure is the one of
  the big-number library inside normalizeAddress.
\<close>

definition getCallTarget :: "structLog \<Rightarrow> nat \<Rightarrow> structLog list \<Rightarrow> error + callTarget" where
  "getCallTarget lg iLog structLogs =
     (if op lg = ''CALL'' \<or> op lg = ''CALLCODE'' \<or> op lg = ''DELEGATECALL'' \<or> op lg = ''STATICCALL''
      then (case normalizeAddress (stackFromTop lg 2) of
              Inl e \<Rightarrow> Inl e
            | Inr a \<Rightarrow> Inr \<lparr>ct_addressHexStr = a, ct_isConstructionCall = False\<rparr>)
      else if op lg = ''CREATE'' \<or> op lg = ''CREATE2''
      then (case scanSameDepth structLogs (depth lg) (iLog + 1) of
              None \<Rightarrow> Inr \<lparr>ct_addressHexStr = Null, ct_isConstructionCall = True\<rparr>
            | Some nextLogSameDepth \<Rightarrow>
                (case normalizeAddress (stackFromTop nextLogSameDepth 1) of
                   Inl e \<Rightarrow> Inl e
                 | Inr a \<Rightarrow> Inr \<lparr>ct_addressHexStr = a, ct_isConstructionCall = True\<rparr>))
      else Inr \<lparr>ct_addressHexStr = Null, ct_isConstructionCall = False\<rparr>)"

section \<open>Registries: sources and contracts\<close>

text \<open>
  The objects of the program are shared by reference. Source objects live in a store
  (\<open>sources\<close>, a list; a reference is an index), to which the registries
  \<^verbatim>\<open>sourceById\<close> and \<^verbatim>\<open>sourceByFilename\<close> point. Contract objects are only ever
  reached through \<^verbatim>\<open>contractByAddr\<close>; a reference to a contract is its key there.
  Objects are never removed, so a reference stays valid.
\<close>

record Source =
  id_src :: "jsnum option"
  fileName_src :: "string option"
  skip :: bool
  text_src :: "string option"
  lineOffsets :: "nat list option"
  lineGas :: "int \<rightharpoonup> int"
  linesWithCalls :: "int set"

definition makeSource :: "jsnum option \<Rightarrow> string option \<Rightarrow> Source" where
  "makeSource i fileName' =
     \<lparr>id_src = i, fileName_src = fileName', skip = False, text_src = None, lineOffsets = None,
      lineGas = Map.empty, linesWithCalls = {}\<rparr>"

record Contract =
  addressHexStr :: jsval
  codeHexStr :: "string option"
  constructionCodeHexStr :: "string option"
  fileName :: "string option"
  name :: "string option"
  sourcesById :: "(jsnum \<times> nat) list"
  sourceMap :: "sm_entry list option"
  constructorSourceMap :: "sm_entry list option"
  pcToIdx :: "(nat \<times> nat) list option"
  constructionPcToIdx :: "(nat \<times> nat) list option"
  totalGasCost :: int
  synthGasCost :: int

definition makeContract :: "jsval \<Rightarrow> Contract" where
  "makeContract a =
     \<lparr>addressHexStr = a, codeHexStr = None, constructionCodeHexStr = None, fileName = None,
      name = None, sourcesById = [], sourceMap = None, constructorSourceMap = None,
      pcToIdx = None, constructionPcToIdx = None, totalGasCost = 0, synthGasCost = 0\<rparr>"

text \<open>
  A frame of the call stack. \<open>contract\<close> is the reference to the executing contract
  (\<open>None\<close> for a falsy value).
\<close>

record CallStackItem =
  contract :: "string option"
  isConstructionCall :: bool
  gasBefore :: int
  gasBeforeOutgoingCall :: int
  outgoingCallSource :: "nat option"
  outgoingCallLine :: "int option"

definition makeCallStackItem :: "string option \<Rightarrow> CallStackItem" where
  "makeCallStackItem c =
     \<lparr>contract = c, isConstructionCall = False, gasBefore = 0, gasBeforeOutgoingCall = 0,
      outgoingCallSource = None, outgoingCallLine = None\<rparr>"

text \<open>What the run prints (the final report, which only reads the state, is left out).\<close>

datatype message =
    GasUsed int
  | TargetNotContract \<comment> \<open>\<^verbatim>\<open>The transaction target address is not a contract\<close>\<close>
  | WarnNoCode string
  | WarnNoContractSource string
  | WarnNoSourceWithId jsnum
  | WarnNoSourceInfo string
  | WarnNoSourceText string
  | WarnInvalidGasCost int string

record state =
  callStack :: "CallStackItem list"
  contractByAddr :: "(string \<times> Contract) list"
  sources :: "Source list"
  sourceById :: "(jsnum \<times> nat) list"
  sourceByFilename :: "(string \<times> nat) list"
  console :: "message list"

text \<open>
  The collaborators of the run: the chain (\<^verbatim>\<open>web3.eth.getCode\<close>), the compiler output
  (\<^verbatim>\<open>solcOutput.sources\<close> as file name and id, \<^verbatim>\<open>solcOutput.contracts\<close> in the order the
  two nested loops of findContractByDeployedBytecode visit it), the file system behind
  readSource, the \<^verbatim>\<open>--skip\<close> option and the library function \<^verbatim>\<open>binarysearch.closest\<close>.
\<close>

record solcContract =
  sc_fileName :: string
  sc_name :: string
  sc_deployedObject :: string
  sc_deployedSourceMap :: string
  sc_bytecodeObject :: string
  sc_bytecodeSourceMap :: string

record env =
  getCode :: "jsval \<Rightarrow> string"
  solcSources :: "(string \<times> int) list"
  solcContracts :: "solcContract list"
  readSource :: "string \<Rightarrow> string option"
  skipFiles :: "string list"
  closest :: "nat list \<Rightarrow> jsnum \<Rightarrow> int"

text \<open>The property key of a value (\<^verbatim>\<open>contractByAddr[addressHexStr]\<close>).\<close>

fun keyOf :: "jsval \<Rightarrow> string" where
  "keyOf (Str str) = str"
| "keyOf Null = ''null''"
| "keyOf Undefined = ''undefined''"

definition warn :: "message \<Rightarrow> state \<Rightarrow> state" where
  "warn m st = st\<lparr>console := console st @ [m]\<rparr>"

definition modifyContract :: "string \<Rightarrow> (Contract \<Rightarrow> Contract) \<Rightarrow> state \<Rightarrow> state" where
  "modifyContract key f st = st\<lparr>contractByAddr := AList.map_entry key f (contractByAddr st)\<rparr>"

text \<open>
  \<^verbatim>\<open>function findContractByDeployedBytecode(codeHexStr, solcOutput)\<close>: the first
  compiled contract whose deployed bytecode is exactly the given text.
\<close>

definition findContractByDeployedBytecode :: "string \<Rightarrow> solcContract list \<Rightarrow> solcContract option" where
  "findContractByDeployedBytecode code cs = find (\<lambda>c. sc_deployedObject c = code) cs"

text \<open>
  \<^verbatim>\<open>
  async function getContractWithAddr(addr, web3, solcOutput) {
    const addressHexStr = normalizeAddress(addr);
    const cached = contractByAddr[addressHexStr];
    if (cached) { return cached; }
    const result = makeContract(addressHexStr);
    contractByAddr[addressHexStr] = result;
    result.codeHexStr = strip0x(await web3.eth.getCode(addressHexStr)) || null;
    if (!result.codeHexStr) { console.error(`WARN no code at address ...`); return result; }
    result.pcToIdx = buildPcToInstructionMapping(result.codeHexStr);
    const contractData = findContractByDeployedBytecode(result.codeHexStr, solcOutput);
    if (!contractData) { console.error(`WARN no source for contract ...`); return result; }
    result.construction\<dots>CodeHexStr = contractData.construction\<dots>CodeHexStr;
    result.constructionPcToIdx = buildPcToInstructionMapping(result.construction\<dots>CodeHexStr);
    result.name = contractData.name;
    result.fileName = contractData.fileName;
    result.sourceMap = parseSourceMap(contractData.sourceMap);
    result.constructorSourceMap = parseSourceMap(contractData.constructorSourceMap);
    return result;
  }\<close>
  The value returned is a reference to a contract object on every path; it is an
  \<open>option\<close> here because the caller tests it for falsiness.
\<close>

definition getContractWithAddr :: "env \<Rightarrow> jsval \<Rightarrow> state \<Rightarrow> error + (string option \<times> state)" where
  "getContractWithAddr e addr st =
     (case normalizeAddress addr of
        Inl err \<Rightarrow> Inl err
      | Inr a \<Rightarrow>
          (case map_of (contractByAddr st) (keyOf a) of
             Some cached \<Rightarrow> Inr (Some (keyOf a), st)
           | None \<Rightarrow>
               (let result = makeContract a;
                    code = strip0x_str (getCode e a)
                in if code = []
                   then Inr (Some (keyOf a),
                          warn (WarnNoCode (keyOf a))
                            (st\<lparr>contractByAddr := AList.update (keyOf a) result (contractByAddr st)\<rparr>))
                   else
                     (let result1 = result\<lparr>codeHexStr := Some code,
                                           pcToIdx := Some (buildPcToInstructionMapping code)\<rparr>
                      in case findContractByDeployedBytecode code (solcContracts e) of
                           None \<Rightarrow>
                             Inr (Some (keyOf a),
                               warn (WarnNoContractSource (keyOf a))
                                 (st\<lparr>contractByAddr := AList.update (keyOf a) result1 (contractByAddr st)\<rparr>))
                         | Some contractData \<Rightarrow>
                             (let result2 = result1
                                    \<lparr>constructionCodeHexStr := Some (sc_bytecodeObject contractData),
                                     constructionPcToIdx :=
                                       Some (buildPcToInstructionMapping (sc_bytecodeObject contractData)),
                                     name := Some (sc_name contractData),
                                     fileName := Some (sc_fileName contractData),
                                     sourceMap := Some (parseSourceMap (sc_deployedSourceMap contractData)),
                                     constructorSourceMap :=
                                       Some (parseSourceMap (sc_bytecodeSourceMap contractData))\<rparr>
                              in Inr (Some (keyOf a),
                                   st\<lparr>contractByAddr := AList.update (keyOf a) result2 (contractByAddr st)\<rparr>))))))"

text \<open>
  \<^verbatim>\<open>
  function buildLineOffsets (src) {
    let accu = 0;
    return src.split('\n').map(line => { const ret = accu; accu += line.length + 1; return ret; });
  }\<close>
\<close>

fun lineOffsetsFrom :: "nat \<Rightarrow> string list \<Rightarrow> nat list" where
  "lineOffsetsFrom accu [] = []"
| "lineOffsetsFrom accu (line # rest) = accu # lineOffsetsFrom (accu + (length line + 1)) rest"

definition buildLineOffsets :: "string \<Rightarrow> nat list" where
  "buildLineOffsets src = lineOffsetsFrom 0 (split (CHR 0x0A) src)"

text \<open>\<^verbatim>\<open>fileName.indexOf(str) !== -1\<close>\<close>

definition containsStr :: "string \<Rightarrow> string \<Rightarrow> bool" where
  "containsStr fileName' str =
     list_ex (\<lambda>k. take (length str) (drop k fileName') = str) [0..<Suc (length fileName')]"

text \<open>
  \<^verbatim>\<open>
  function getSourceForFilename(fileName, solcOutput, sourceRoot, skipFiles) {
    const cached = sourceByFilename[fileName];
    if (cached) { return cached; }
    const result = makeSource(null, fileName);
    sourceByFilename[fileName] = result;
    const sourceData = solcOutput.sources[fileName];
    if (!sourceData) { console.error(`WARN no source info ...`); return result; }
    result.id = sourceData.id;
    result.skip = skipFiles.some(str => fileName.indexOf(str) !== -1);
    sourceById[result.id] = result;
    if (!result.skip) { result.text = readSource(fileName, sourceRoot); }
    if (result.text) { result.lineOffsets = buildLineOffsets(result.text); }
    else if (!result.skip) { console.error(`WARN no source text ...`); }
    return result;
  }\<close>
\<close>

definition getSourceForFilename :: "env \<Rightarrow> string \<Rightarrow> state \<Rightarrow> nat \<times> state" where
  "getSourceForFilename e fileName' st =
     (case map_of (sourceByFilename st) fileName' of
        Some cached \<Rightarrow> (cached, st)
      | None \<Rightarrow>
          (let r = length (sources st);
               result = makeSource None (Some fileName');
               st1 = st\<lparr>sourceByFilename := AList.update fileName' r (sourceByFilename st)\<rparr>
           in case map_of (solcSources e) fileName' of
                None \<Rightarrow>
                  (r, warn (WarnNoSourceInfo fileName') (st1\<lparr>sources := sources st @ [result]\<rparr>))
              | Some sid \<Rightarrow>
                  (let skp = list_ex (containsStr fileName') (skipFiles e);
                       txt = (if \<not> skp then readSource e fileName' else None);
                       hasText = (case txt of None \<Rightarrow> False | Some t \<Rightarrow> t \<noteq> []);
                       result1 = result
                         \<lparr>id_src := Some (Num sid), skip := skp, text_src := txt,
                          lineOffsets := (case txt of
                                            None \<Rightarrow> None
                                          | Some t \<Rightarrow> if t \<noteq> [] then Some (buildLineOffsets t) else None)\<rparr>;
                       st2 = st1\<lparr>sources := sources st @ [result1],
                                 sourceById := AList.update (Num sid) r (sourceById st)\<rparr>
                   in (r, if \<not> hasText \<and> \<not> skp then warn (WarnNoSourceText fileName') st2 else st2))))"

text \<open>
  \<^verbatim>\<open>
  function getSourceWithId(sourceId, solcOutput, sourceRoot, skipFiles) {
    const cached = sourceById[sourceId];
    if (cached) { return cached; }
    const fileName = Object.keys(solcOutput.sources)
      .find(sourceFileName => solcOutput.sources[sourceFileName].id === sourceId) || null;
    if (!fileName) {
      console.error(`WARN no source with id ${sourceId}`);
      return sourceById[sourceId] = makeSource(sourceId, null);
    }
    return getSourceForFilename(fileName, solcOutput, sourceRoot, skipFiles);
  }\<close>
\<close>

definition getSourceWithId :: "env \<Rightarrow> jsnum \<Rightarrow> state \<Rightarrow> nat \<times> state" where
  "getSourceWithId e sourceId st =
     (case map_of (sourceById st) sourceId of
        Some cached \<Rightarrow> (cached, st)
      | None \<Rightarrow>
          (case find (\<lambda>sourceFileName.
                         case map_of (solcSources e) sourceFileName of
                           None \<Rightarrow> False
                         | Some sid \<Rightarrow> Num sid = sourceId)
                  (map fst (solcSources e)) of
             Some (c # cs) \<Rightarrow> getSourceForFilename e (c # cs) st
           | _ \<Rightarrow>
               (length (sources st),
                warn (WarnNoSourceWithId sourceId)
                  (st\<lparr>sources := sources st @ [makeSource (Some sourceId) None],
                      sourceById := AList.update sourceId (length (sources st)) (sourceById st)\<rparr>))))"

section \<open>Line gas\<close>

text \<open>
  \<^verbatim>\<open>x | 0\<close> of the host: the conversion of a number to a signed 32-bit integer;
  \<open>undefined\<close> (an absent entry) converts to 0.
\<close>

definition toInt32 :: "int \<Rightarrow> int" where
  "toInt32 v = sint (word_of_int v :: 32 word)"

definition orZero :: "int option \<Rightarrow> int" where
  "orZero x = (case x of None \<Rightarrow> 0 | Some v \<Rightarrow> toInt32 v)"

text \<open>
  \<^verbatim>\<open>
  function increaseLineGasCost(source, line, gasCost, isCall) {
    if (source != null && line != null && !source.skip) {
      source.lineGas[line] = (source.lineGas[line] | 0) + gasCost;
      if (isCall) { source.linesWithCalls[line] = true; }
    }
  }\<close>
  \<open>chargeLine\<close> is the body of the \<open>if\<close>, on the source object.
\<close>

definition chargeLine :: "int \<Rightarrow> int \<Rightarrow> bool \<Rightarrow> Source \<Rightarrow> Source" where
  "chargeLine line cost isCall src =
     src\<lparr>lineGas := (lineGas src)(line \<mapsto> orZero (lineGas src line) + cost),
         linesWithCalls := (if isCall then insert line (linesWithCalls src) else linesWithCalls src)\<rparr>"

definition increaseLineGasCost :: "nat option \<Rightarrow> int option \<Rightarrow> int \<Rightarrow> bool \<Rightarrow> state \<Rightarrow> state" where
  "increaseLineGasCost source line cost isCall st =
     (case source of
        None \<Rightarrow> st
      | Some r \<Rightarrow>
          (case line of
             None \<Rightarrow> st
           | Some ln \<Rightarrow>
               if \<not> skip (sources st ! r)
               then st\<lparr>sources := (sources st)[r := chargeLine ln cost isCall (sources st ! r)]\<rparr>
               else st))"

section \<open>Trace-replay attribution engine\<close>

text \<open>
  \<^verbatim>\<open>
  function getSourcePosition(call, log, solcOutput, sourceRoot, skipFiles) {
    const result = {source: null, line: null, isSynthOp: false};
    const {contract} = call;
    const pcToIdx = call.isConstructionCall ? contract.constructionPcToIdx : contract.pcToIdx;
    const sourceMap = call.isConstructionCall ? contract.constructorSourceMap : contract.sourceMap;
    if (!pcToIdx || !sourceMap) { return result; }
    const instructionIdx = pcToIdx[log.pc];
    const {s: sourceOffset, f: sourceId} = sourceMap[instructionIdx];
    if (sourceId === -1) { result.isSynthOp = true; return result; }
    result.source = getSourceWithId(sourceId, solcOutput, sourceRoot, skipFiles) || null;
    if (contract.sourcesById[sourceId] === undefined) { contract.sourcesById[sourceId] = result.source; }
    if (result.source && result.source.lineOffsets) {
      result.line = binarysearch.closest(result.source.lineOffsets, sourceOffset);
    }
    return result;
  }\<close>
  Reading a property of a missing contract, and destructuring a missing source-map
  entry, throw a \<open>TypeError\<close>.
\<close>

definition getSourcePosition ::
  "env \<Rightarrow> CallStackItem \<Rightarrow> structLog \<Rightarrow> state \<Rightarrow> error + ((nat option \<times> int option \<times> bool) \<times> state)" where
  "getSourcePosition e call lg st =
     (case contract call of
        None \<Rightarrow> Inl TypeError
      | Some key \<Rightarrow>
          (case map_of (contractByAddr st) key of
             None \<Rightarrow> Inl TypeError
           | Some c \<Rightarrow>
               (case (if isConstructionCall call then constructionPcToIdx c else pcToIdx c) of
                  None \<Rightarrow> Inr ((None, None, False), st)
                | Some pcToIdx' \<Rightarrow>
                    (case (if isConstructionCall call then constructorSourceMap c else sourceMap c) of
                       None \<Rightarrow> Inr ((None, None, False), st)
                     | Some sourceMap' \<Rightarrow>
                         (case map_of pcToIdx' (pc lg) of
                            None \<Rightarrow> Inl TypeError
                          | Some instructionIdx \<Rightarrow>
                              if \<not> instructionIdx < length sourceMap' then Inl TypeError
                              else
                                (let sourceOffset = sm_s (sourceMap' ! instructionIdx);
                                     sourceId = sm_f (sourceMap' ! instructionIdx)
                                 in if sourceId = Num (- 1) then Inr ((None, None, True), st)
                                    else
                                      (let (source, st1) = getSourceWithId e sourceId st;
                                           st2 = (if map_of (sourcesById c) sourceId = None
                                                  then modifyContract key
                                                         (\<lambda>c'. c'\<lparr>sourcesById :=
                                                                  AList.update sourceId source (sourcesById c')\<rparr>)
                                                         st1
                                                  else st1);
                                           line = (case lineOffsets (sources st2 ! source) of
                                                     None \<Rightarrow> None
                                                   | Some offs \<Rightarrow> Some (closest e offs sourceOffset))
                                       in Inr ((Some source, line, False), st2))))))))"

text \<open>The warning of getGasCost, if it prints one.\<close>

definition warnGasCost :: "structLog \<Rightarrow> state \<Rightarrow> state" where
  "warnGasCost lg st = (if getGasCostWarns lg then warn (WarnInvalidGasCost (gasCost lg) (op lg)) st else st)"

text \<open>
  The body of the unwinding loop, at step \<open>i\<close>:
  \<^verbatim>\<open>
      const prevTopCall = callStack.pop();
      // using the prev opcode since Ganache reports RETURN opcodes as having negative cost
      const prevLog = trace.structLogs[i - 1];
      prevTopCall.contract.totalGasCost += prevTopCall.gasBefore - prevLog.gas + getGasCost(prevLog);
      const topCall = callStack[callStack.length - 1];
      const cumulativeCallCost = topCall.gasBeforeOutgoingCall - log.gas;
      increaseLineGasCost(topCall.outgoingCallSource, topCall.outgoingCallLine, cumulativeCallCost, true);\<close>
\<close>

definition popFrame :: "structLog list \<Rightarrow> nat \<Rightarrow> state \<Rightarrow> error + state" where
  "popFrame structLogs i st =
     (if callStack st = [] then Inl TypeError
      else
        (let prevTopCall = last (callStack st);
             st1 = st\<lparr>callStack := butlast (callStack st)\<rparr>
         in case contract prevTopCall of
              None \<Rightarrow> Inl TypeError
            | Some key \<Rightarrow>
                if i = 0 then Inl TypeError
                else
                  (let prevLog = structLogs ! (i - 1);
                       st2 = modifyContract key
                               (\<lambda>c. c\<lparr>totalGasCost :=
                                        totalGasCost c + (gasBefore prevTopCall - gas prevLog + getGasCost prevLog)\<rparr>)
                               (warnGasCost prevLog st1)
                   in if callStack st2 = [] then Inl TypeError
                      else
                        (let topCall = last (callStack st2);
                             cumulativeCallCost = gasBeforeOutgoingCall topCall - gas (structLogs ! i)
                         in Inr (increaseLineGasCost (outgoingCallSource topCall) (outgoingCallLine topCall)
                                   cumulativeCallCost True st2)))))"

text \<open>
  \<^verbatim>\<open>while (log.depth - bottomDepth < callStack.length - 1) { ... }\<close>
\<close>

function unwind :: "structLog list \<Rightarrow> int \<Rightarrow> nat \<Rightarrow> state \<Rightarrow> error + state" where
  "unwind structLogs bottomDepth i st =
     (if depth (structLogs ! i) - bottomDepth < int (length (callStack st)) - 1
      then (case popFrame structLogs i st of
              Inl err \<Rightarrow> Inl err
            | Inr st' \<Rightarrow> unwind structLogs bottomDepth i st')
      else Inr st)"
  by pat_completeness auto
termination
proof (relation "measure (\<lambda>(structLogs, bottomDepth, i, st). length (callStack st))")
  show "wf (measure (\<lambda>(structLogs, bottomDepth, i, st). length (callStack st)))"
    by simp
next
  fix structLogs :: "structLog list" and bottomDepth :: int and i :: nat and st st' :: state
  assume "popFrame structLogs i st = Inr st'"
  then have "length (callStack st') < length (callStack st)"
    by (auto simp: popFrame_def Let_def modifyContract_def warnGasCost_def warn_def
        increaseLineGasCost_def split: if_splits option.splits)
  then show "((structLogs, bottomDepth, i, st'), (structLogs, bottomDepth, i, st))
             \<in> measure (\<lambda>(structLogs, bottomDepth, i, st). length (callStack st))"
    by simp
qed

declare unwind.simps [simp del]

text \<open>
  One iteration of the replay loop, for the log at index \<open>i\<close>:
  \<^verbatim>\<open>
    const log = trace.structLogs[i];
    const gasCost = getGasCost(log);
    while (...) { ... }
    assert(callStack.length > 0);
    const call = callStack[log.depth - bottomDepth];
    const {source, line, isSynthOp} = getSourcePosition(call, log, solcOutput, sourceRoot, skipFiles);
    const nextLog = trace.structLogs[i + 1];
    const outgoingCallTarget = getCallTarget(log, i, trace.structLogs);
    if (outgoingCallTarget.addressHexStr && nextLog && nextLog.depth > log.depth) {
      // the current instruction is a call or create instruction
      assert(nextLog.depth === log.depth + 1);
      call.outgoingCallSource = source;
      call.outgoingCallLine = line;
      call.gasBeforeOutgoingCall = log.gas;
      const targetContract = await getContractWithAddr(outgoingCallTarget.addressHexStr, web3, solcOutput);
      const outgoingCall = makeCallStackItem(targetContract);
      outgoingCall.isConstructionCall = outgoingCallTarget.isConstructionCall;
      outgoingCall.gasBefore = nextLog.gas;
      callStack.push(outgoingCall);
    } else {
      if (isSynthOp) { call.contract.synthGasCost += gasCost; }
      else { increaseLineGasCost(source, line, gasCost, false); }
    }\<close>
  \<open>call\<close> is the frame object at index \<open>log.depth - bottomDepth\<close> of the stack (a
  missing one makes getSourcePosition throw), so writing its fields updates the stack
  at that index.
\<close>

definition step :: "env \<Rightarrow> structLog list \<Rightarrow> int \<Rightarrow> nat \<Rightarrow> state \<Rightarrow> error + state" where
  "step e structLogs bottomDepth i st0 =
     (let lg = structLogs ! i;
          cost = getGasCost lg
      in case unwind structLogs bottomDepth i (warnGasCost lg st0) of
           Inl err \<Rightarrow> Inl err
         | Inr st1 \<Rightarrow>
             if \<not> 0 < length (callStack st1) then Inl AssertionError
             else if depth lg - bottomDepth < 0 \<or> int (length (callStack st1)) \<le> depth lg - bottomDepth
             then Inl TypeError
             else
               (let k = nat (depth lg - bottomDepth);
                    call = callStack st1 ! k
                in case getSourcePosition e call lg st1 of
                     Inl err \<Rightarrow> Inl err
                   | Inr ((source, line, isSynthOp), st2) \<Rightarrow>
                       (case getCallTarget lg i structLogs of
                          Inl err \<Rightarrow> Inl err
                        | Inr outgoingCallTarget \<Rightarrow>
                            if truthy (ct_addressHexStr outgoingCallTarget) \<and> Suc i < length structLogs
                               \<and> depth lg < depth (structLogs ! Suc i)
                            then
                              (let nextLog = structLogs ! Suc i
                               in if depth nextLog \<noteq> depth lg + 1 then Inl AssertionError
                                  else
                                    (let call' = call\<lparr>outgoingCallSource := source,
                                                      outgoingCallLine := line,
                                                      gasBeforeOutgoingCall := gas lg\<rparr>;
                                         st3 = st2\<lparr>callStack := (callStack st2)[k := call']\<rparr>
                                     in case getContractWithAddr e (ct_addressHexStr outgoingCallTarget) st3 of
                                          Inl err \<Rightarrow> Inl err
                                        | Inr (targetContract, st4) \<Rightarrow>
                                            Inr (st4\<lparr>callStack := callStack st4 @
                                                   [(makeCallStackItem targetContract)
                                                      \<lparr>isConstructionCall := ct_isConstructionCall outgoingCallTarget,
                                                       gasBefore := gas nextLog\<rparr>]\<rparr>)))
                            else if isSynthOp
                            then (case contract call of
                                    None \<Rightarrow> Inl TypeError
                                  | Some key \<Rightarrow>
                                      Inr (modifyContract key
                                             (\<lambda>c. c\<lparr>synthGasCost := synthGasCost c + cost\<rparr>) st2))
                            else Inr (increaseLineGasCost source line cost False st2))))"

text \<open>\<^verbatim>\<open>for (let i = 0; i < trace.structLogs.length; ++i)\<close>: an exception ends the run.\<close>

fun runSteps :: "(nat \<Rightarrow> state \<Rightarrow> error + state) \<Rightarrow> nat list \<Rightarrow> state \<Rightarrow> error + state" where
  "runSteps body [] st = Inr st"
| "runSteps body (i # rest) st =
     (case body i st of
        Inl err \<Rightarrow> Inl err
      | Inr st' \<Rightarrow> runSteps body rest st')"

definition replay :: "env \<Rightarrow> structLog list \<Rightarrow> int \<Rightarrow> state \<Rightarrow> error + state" where
  "replay e structLogs bottomDepth st =
     runSteps (step e structLogs bottomDepth) [0..<length structLogs] st"

text \<open>
  The data main reads from the chain: the receipt, the transaction and the trace.
  \<^verbatim>\<open>
  async function main(argv) {
    ...
    console.log('Gas used by transaction:', receipt.gasUsed);
    const isEntryCallConstruction = !tx.to && !!receipt.contractAddress;
    const entryAddr = isEntryCallConstruction ? receipt.contractAddress : tx.to;
    assert(!!entryAddr);
    const entryContract = await getContractWithAddr(entryAddr, web3, solcOutput);
    if (!entryContract) {
      console.log(`The transaction target address is not a contract`);
      return
    }
    const trace = await web3.traceTx(txHash, {...});
    const entryCall = makeCallStackItem(entryContract);
    entryCall.isConstructionCall = isEntryCallConstruction;
    const callStack = [entryCall];
    const bottomDepth = trace.structLogs[0].depth; // 1 in geth, 0 in ganache
    for (...) { ... }
    const firstLog = trace.structLogs[0];
    const lastLog = trace.structLogs[trace.structLogs.length - 1];
    entryContract.totalGasCost = firstLog.gas - lastLog.gas + getGasCost(lastLog);
    ... (the report)
  }\<close>
  The registries are empty when the run starts.
\<close>

record receipt =
  gasUsed :: int
  contractAddress :: jsval

record transaction =
  tx_to :: jsval

definition initialState :: state where
  "initialState =
     \<lparr>callStack = [], contractByAddr = [], sources = [], sourceById = [], sourceByFilename = [],
      console = []\<rparr>"

definition main :: "env \<Rightarrow> receipt \<Rightarrow> transaction \<Rightarrow> structLog list \<Rightarrow> error + state" where
  "main e rcpt tx structLogs =
     (let st0 = warn (GasUsed (gasUsed rcpt)) initialState;
          isEntryCallConstruction = (\<not> truthy (tx_to tx) \<and> truthy (contractAddress rcpt));
          entryAddr = (if isEntryCallConstruction then contractAddress rcpt else tx_to tx)
      in if \<not> truthy entryAddr then Inl AssertionError
         else case getContractWithAddr e entryAddr st0 of
                Inl err \<Rightarrow> Inl err
              | Inr (None, st1) \<Rightarrow> Inr (warn TargetNotContract st1)
              | Inr (Some entryContract, st1) \<Rightarrow>
                  if structLogs = [] then Inl TypeError
                  else
                    (let entryCall = (makeCallStackItem (Some entryContract))
                                       \<lparr>isConstructionCall := isEntryCallConstruction\<rparr>;
                         bottomDepth = depth (structLogs ! 0)
                     in case replay e structLogs bottomDepth (st1\<lparr>callStack := [entryCall]\<rparr>) of
                          Inl err \<Rightarrow> Inl err
                        | Inr st2 \<Rightarrow>
                            (let firstLog = structLogs ! 0;
                                 lastLog = structLogs ! (length structLogs - 1)
                             in Inr (modifyContract entryContract
                                       (\<lambda>c. c\<lparr>totalGasCost := gas firstLog - gas lastLog + getGasCost lastLog\<rparr>)
                                       (warnGasCost lastLog st2)))))"

text \<open>The sum over all contracts of the registry of their \<open>totalGasCost\<close>.\<close>

definition sumTotalGasCost :: "state \<Rightarrow> int" where
  "sumTotalGasCost st = sum_list (map (\<lambda>(key, c). totalGasCost c) (contractByAddr st))"

text \<open>The keys of the contract registry.\<close>

definition contractKeys :: "state \<Rightarrow> string set" where
  "contractKeys st = fst ` set (contractByAddr st)"

text \<open>The claimed invariant of the accumulated line gas: no entry is negative.\<close>

definition lineGasNonneg :: "state \<Rightarrow> bool" where
  "lineGasNonneg st = (\<forall>r < length (sources st). \<forall>k v. lineGas (sources st ! r) k = Some v \<longrightarrow> 0 \<le> v)"

text \<open>The accumulated line gas stays below \<open>2^31\<close>, the range that \<^verbatim>\<open>| 0\<close> leaves as it is.\<close>

definition lineGasBelow :: "state \<Rightarrow> bool" where
  "lineGasBelow st = (\<forall>r < length (sources st). \<forall>k v. lineGas (sources st ! r) k = Some v \<longrightarrow> v < 2 ^ 31)"

text \<open>
  A trace on which no charge of the replay is negative: the gas cost of every log,
  after getGasCost, is not negative, and the gas left when a nested call has returned is
  not above the gas left before the call. \<open>callReturns\<close> says that log \<open>i'\<close> entered a
  nested call (the next log is deeper), that all logs between \<open>i'\<close> and \<open>i\<close> are deeper
  than log \<open>i'\<close>, and that log \<open>i\<close> is not.
\<close>

definition callReturns :: "structLog list \<Rightarrow> nat \<Rightarrow> nat \<Rightarrow> bool" where
  "callReturns logs i' i =
     (depth (logs ! i') < depth (logs ! Suc i')
      \<and> list_all (\<lambda>t. depth (logs ! i') < depth (logs ! t)) [Suc i'..<i]
      \<and> depth (logs ! i) \<le> depth (logs ! i'))"

definition chargesNonneg :: "structLog list \<Rightarrow> bool" where
  "chargesNonneg logs =
     (list_all (\<lambda>l. 0 \<le> getGasCost l) logs
      \<and> list_all (\<lambda>i. list_all (\<lambda>i'. callReturns logs i' i \<longrightarrow> gas (logs ! i) \<le> gas (logs ! i')) [0..<i])
           [0..<length logs])"

text \<open>Every accumulated entry of every source is within \<open>0..B\<close>.\<close>

definition lineGasWithin :: "int \<Rightarrow> state \<Rightarrow> bool" where
  "lineGasWithin B st =
     (\<forall>r < length (sources st). \<forall>k v. lineGas (sources st ! r) k = Some v \<longrightarrow> 0 \<le> v \<and> v \<le> B)"

text \<open>
  Before step \<open>i\<close>, every frame below the top of the stack is waiting for the call it
  issued at an earlier log \<open>i'\<close>: its \<open>gasBeforeOutgoingCall\<close> is the gas of that log, and
  the trace has been deeper than that log ever since.
\<close>

definition pendingCalls :: "structLog list \<Rightarrow> int \<Rightarrow> nat \<Rightarrow> CallStackItem list \<Rightarrow> bool" where
  "pendingCalls logs b i cs =
     (\<forall>j. Suc j < length cs \<longrightarrow>
        (\<exists>i' < i. depth (logs ! i') = b + int j
                \<and> depth (logs ! i') < depth (logs ! Suc i')
                \<and> gasBeforeOutgoingCall (cs ! j) = gas (logs ! i')
                \<and> (\<forall>t. i' < t \<and> t < i \<longrightarrow> depth (logs ! i') < depth (logs ! t))))"

definition replayInv :: "structLog list \<Rightarrow> int \<Rightarrow> nat \<Rightarrow> state \<Rightarrow> bool" where
  "replayInv logs b i st =
     (0 < length (callStack st) \<and> pendingCalls logs b i (callStack st) \<and> lineGasNonneg st)"

text \<open>The second state has the sources of the first, or one more with no line gas yet.\<close>

definition appendedEmpty :: "state \<Rightarrow> state \<Rightarrow> bool" where
  "appendedEmpty st st' =
     (sources st' = sources st
      \<or> sources st' = sources st @ [last (sources st')] \<and> lineGas (last (sources st')) = Map.empty)"

text \<open>
  The points of the replay: the states in which the line gas can be observed. In step
  \<open>i\<close> these are the states at the head of the unwinding loop, one for each time its
  condition is evaluated, the first being the state in which the step starts; the state
  after the last step ends the list. Every charge of the replay leads from one point to
  the next one (resolving a source position in between can only add a source without
  line gas). An exception ends the list where it ends the run.
\<close>

function unwindPoints :: "structLog list \<Rightarrow> int \<Rightarrow> nat \<Rightarrow> state \<Rightarrow> state list" where
  "unwindPoints structLogs bottomDepth i st =
     st # (if depth (structLogs ! i) - bottomDepth < int (length (callStack st)) - 1
           then (case popFrame structLogs i st of
                   Inl err \<Rightarrow> []
                 | Inr st' \<Rightarrow> unwindPoints structLogs bottomDepth i st')
           else [])"
  by pat_completeness auto
termination
proof (relation "measure (\<lambda>(structLogs, bottomDepth, i, st). length (callStack st))")
  show "wf (measure (\<lambda>(structLogs, bottomDepth, i, st). length (callStack st)))"
    by simp
next
  fix structLogs :: "structLog list" and bottomDepth :: int and i :: nat and st st' :: state
  assume "popFrame structLogs i st = Inr st'"
  then have "length (callStack st') < length (callStack st)"
    by (auto simp: popFrame_def Let_def modifyContract_def warnGasCost_def warn_def
        increaseLineGasCost_def split: if_splits option.splits)
  then show "((structLogs, bottomDepth, i, st'), (structLogs, bottomDepth, i, st))
             \<in> measure (\<lambda>(structLogs, bottomDepth, i, st). length (callStack st))"
    by simp
qed

declare unwindPoints.simps [simp del]

fun replayPoints :: "env \<Rightarrow> structLog list \<Rightarrow> int \<Rightarrow> nat list \<Rightarrow> state \<Rightarrow> state list" where
  "replayPoints e structLogs bottomDepth [] st = [st]"
| "replayPoints e structLogs bottomDepth (i # rest) st =
     unwindPoints structLogs bottomDepth i (warnGasCost (structLogs ! i) st)
     @ (case step e structLogs bottomDepth i st of
          Inl err \<Rightarrow> []
        | Inr st' \<Rightarrow> replayPoints e structLogs bottomDepth rest st')"

text \<open>The points of the replay that main runs; none when main does not reach the replay.\<close>

definition mainPoints :: "env \<Rightarrow> receipt \<Rightarrow> transaction \<Rightarrow> structLog list \<Rightarrow> state list" where
  "mainPoints e rcpt tx structLogs =
     (let st0 = warn (GasUsed (gasUsed rcpt)) initialState;
          isEntryCallConstruction = (\<not> truthy (tx_to tx) \<and> truthy (contractAddress rcpt));
          entryAddr = (if isEntryCallConstruction then contractAddress rcpt else tx_to tx)
      in if \<not> truthy entryAddr then []
         else case getContractWithAddr e entryAddr st0 of
                Inl err \<Rightarrow> []
              | Inr (None, st1) \<Rightarrow> []
              | Inr (Some entryContract, st1) \<Rightarrow>
                  if structLogs = [] then []
                  else replayPoints e structLogs (depth (structLogs ! 0)) [0..<length structLogs]
                         (st1\<lparr>callStack := [(makeCallStackItem (Some entryContract))
                                               \<lparr>isConstructionCall := isEntryCallConstruction\<rparr>]\<rparr>))"

text \<open>No nested frame is entered: no log of the trace is followed by a deeper log.\<close>

definition noNestedCall :: "structLog list \<Rightarrow> bool" where
  "noNestedCall logs = list_all (\<lambda>i. \<not> depth (logs ! i) < depth (logs ! Suc i)) [0..<length logs - 1]"

section \<open>A concrete run\<close>

text \<open>
  A compiled contract \<open>A\<close> (two instructions, CALL and STOP, on lines 0 and 1 of
  \<open>A.sol\<close>) deployed at \<open>\<dots>a1\<close>, and an account \<open>\<dots>b2\<close> whose code the compiler output
  does not know. \<open>exClosest\<close> stands for the library's \<^verbatim>\<open>binarysearch.closest\<close>: the index
  of the largest offset not above the given one.
\<close>

definition exClosest :: "nat list \<Rightarrow> jsnum \<Rightarrow> int" where
  "exClosest offs x =
     (case x of NaN \<Rightarrow> 0 | Num n \<Rightarrow> int (length (filter (\<lambda>off. int off \<le> n) offs)) - 1)"

definition exEntryAddr :: string where
  "exEntryAddr = ''00000000000000000000000000000000000000a1''"

definition exCalleeAddr :: string where
  "exCalleeAddr = ''00000000000000000000000000000000000000b2''"

definition exEnv :: env where
  "exEnv =
     \<lparr>getCode = (\<lambda>a. if a = Str exEntryAddr then ''0xf100'' else ''0x''),
      solcSources = [(''A.sol'', 0)],
      solcContracts =
        [\<lparr>sc_fileName = ''A.sol'', sc_name = ''A'', sc_deployedObject = ''f100'',
          sc_deployedSourceMap = ''0:4:0:-;5:4:0:-'', sc_bytecodeObject = [],
          sc_bytecodeSourceMap = []\<rparr>],
      readSource = (\<lambda>f. if f = ''A.sol'' then Some [CHR ''c'', CHR ''a'', CHR ''l'', CHR ''l'', CHR 0x0A, CHR ''s'', CHR ''t'', CHR ''o'', CHR ''p''] else None),
      skipFiles = [],
      closest = exClosest\<rparr>"

definition exReceipt :: receipt where
  "exReceipt = \<lparr>gasUsed = 21100, contractAddress = Null\<rparr>"

definition exTx :: transaction where
  "exTx = \<lparr>tx_to = Str ''0x00000000000000000000000000000000000000a1''\<rparr>"

definition exTrace :: "structLog list" where
  "exTrace =
     [\<lparr>pc = 0, op = ''CALL'', gas = 1000, gasCost = 700, depth = 1,
       stack = [''0'', ''0'', ''0'', ''0'', ''0'',
                ''00000000000000000000000000000000000000000000000000000000000000b2'', ''ffff'']\<rparr>,
      \<lparr>pc = 0, op = ''PUSH1'', gas = 600, gasCost = 3, depth = 2, stack = []\<rparr>,
      \<lparr>pc = 2, op = ''STOP'', gas = 597, gasCost = 0, depth = 2, stack = [''0'']\<rparr>,
      \<lparr>pc = 1, op = ''STOP'', gas = 900, gasCost = 0, depth = 1, stack = [''1'']\<rparr>]"

text \<open>A source object with one accumulated entry, on line 3.\<close>

definition exSource :: "int \<Rightarrow> Source" where
  "exSource v = (makeSource (Some (Num 0)) (Some ''A.sol''))\<lparr>lineGas := [3 \<mapsto> v]\<rparr>"

text \<open>The state a run returns, if it returns.\<close>

definition returned :: "error + 'a \<Rightarrow> 'a option" where
  "returned r = (case r of Inl err \<Rightarrow> None | Inr x \<Rightarrow> Some x)"

definition lineGasAt :: "nat \<Rightarrow> int \<Rightarrow> state \<Rightarrow> int option" where
  "lineGasAt r k st = lineGas (sources st ! r) k"

definition totalGasCostOf :: "string \<Rightarrow> state \<Rightarrow> int option" where
  "totalGasCostOf key st = map_option totalGasCost (map_of (contractByAddr st) key)"

text \<open>
  The claimed invariant of the call stack, in the specification's words: a frame has
  \<open>outgoingCallSource\<close> and \<open>outgoingCallLine\<close> set if and only if it is waiting for a
  nested call to return, that is, a frame it pushed is above it on the stack.
\<close>

definition outgoingCallInvariant :: "CallStackItem list \<Rightarrow> bool" where
  "outgoingCallInvariant cs =
     list_all (\<lambda>k. (outgoingCallSource (cs ! k) \<noteq> None \<and> outgoingCallLine (cs ! k) \<noteq> None)
                    = (Suc k < length cs))
       [0..<length cs]"

text \<open>The contract object of \<open>A\<close>, and the state in which the replay of \<open>exTrace\<close> starts.\<close>

definition exContractA :: Contract where
  "exContractA = (makeContract (Str exEntryAddr))
     \<lparr>codeHexStr := Some ''f100'', pcToIdx := Some [(0, 0), (1, 1)],
      constructionCodeHexStr := Some [], constructionPcToIdx := Some [],
      name := Some ''A'', fileName := Some ''A.sol'',
      sourceMap := Some [\<lparr>sm_s = Num 0, sm_l = Num 4, sm_f = Num 0, sm_j = Str ''-''\<rparr>,
                         \<lparr>sm_s = Num 5, sm_l = Num 4, sm_f = Num 0, sm_j = Str ''-''\<rparr>],
      constructorSourceMap := Some [\<lparr>sm_s = NaN, sm_l = NaN, sm_f = NaN, sm_j = Undefined\<rparr>]\<rparr>"

definition exState0 :: state where
  "exState0 =
     \<lparr>callStack = [makeCallStackItem (Some exEntryAddr)],
      contractByAddr = [(exEntryAddr, exContractA)],
      sources = [], sourceById = [], sourceByFilename = [],
      console = [GasUsed 21100]\<rparr>"

text \<open>The same chain with no code at any address, and a trace without calls.\<close>

definition exEnvNoCode :: env where
  "exEnvNoCode = exEnv\<lparr>getCode := (\<lambda>a. ''0x'')\<rparr>"

definition exTraceNoCall :: "structLog list" where
  "exTraceNoCall =
     [\<lparr>pc = 0, op = ''PUSH1'', gas = 1000, gasCost = 3, depth = 1, stack = []\<rparr>,
      \<lparr>pc = 2, op = ''STOP'', gas = 997, gasCost = 0, depth = 1, stack = [''1'']\<rparr>]"

text \<open>The state in which the replay starts on the chain without code.\<close>

definition exStateNoCode :: state where
  "exStateNoCode =
     \<lparr>callStack = [makeCallStackItem (Some exEntryAddr)],
      contractByAddr = [(exEntryAddr, makeContract (Str exEntryAddr))],
      sources = [], sourceById = [], sourceByFilename = [],
      console = [GasUsed 21100, WarnNoCode exEntryAddr]\<rparr>"

text \<open>A trace whose only log reports a negative cost for an opcode that does not end a frame.\<close>

definition exTraceNeg :: "structLog list" where
  "exTraceNeg =
     [\<lparr>pc = 0, op = ''SLOAD'', gas = 1000, gasCost = - 5, depth = 1, stack = [''0'']\<rparr>]"

text \<open>
  A trace in which no nested frame is entered: the CALL goes to the account without
  code and the next log is at the same depth. The last log is a STOP for which the trace
  provider reports a negative cost.
\<close>

definition exTraceFlat :: "structLog list" where
  "exTraceFlat =
     [\<lparr>pc = 0, op = ''CALL'', gas = 1000, gasCost = 40, depth = 1,
       stack = [''0'', ''0'', ''0'', ''0'', ''0'',
                ''00000000000000000000000000000000000000000000000000000000000000b2'', ''ffff'']\<rparr>,
      \<lparr>pc = 1, op = ''STOP'', gas = 960, gasCost = - 2, depth = 1, stack = [''1'']\<rparr>]"

text \<open>
  A trace of the nested call with \<open>2^30\<close> gas at the start, as a provider reports it that
  gives the instructions which end a frame a negative cost.
\<close>

definition exTraceGanache :: "structLog list" where
  "exTraceGanache =
     [\<lparr>pc = 0, op = ''CALL'', gas = 1073741824, gasCost = 700, depth = 1,
       stack = [''0'', ''0'', ''0'', ''0'', ''0'',
                ''00000000000000000000000000000000000000000000000000000000000000b2'', ''ffff'']\<rparr>,
      \<lparr>pc = 0, op = ''PUSH1'', gas = 1073741000, gasCost = 3, depth = 2, stack = []\<rparr>,
      \<lparr>pc = 2, op = ''RETURN'', gas = 1073740997, gasCost = - 3, depth = 2, stack = [''0'', ''0'']\<rparr>,
      \<lparr>pc = 1, op = ''STOP'', gas = 1073741724, gasCost = - 1, depth = 1, stack = [''1'']\<rparr>]"

text \<open>
  Two traces without a negative gas cost: in the first the nested call returns with more
  gas left than before the call, in the second the entry of a line reaches \<open>2^31\<close> and
  is charged again.
\<close>

definition exTraceGain :: "structLog list" where
  "exTraceGain =
     [\<lparr>pc = 0, op = ''CALL'', gas = 1000, gasCost = 700, depth = 1,
       stack = [''0'', ''0'', ''0'', ''0'', ''0'',
                ''00000000000000000000000000000000000000000000000000000000000000b2'', ''ffff'']\<rparr>,
      \<lparr>pc = 0, op = ''PUSH1'', gas = 600, gasCost = 3, depth = 2, stack = []\<rparr>,
      \<lparr>pc = 2, op = ''STOP'', gas = 597, gasCost = 0, depth = 2, stack = [''0'']\<rparr>,
      \<lparr>pc = 1, op = ''STOP'', gas = 1100, gasCost = 0, depth = 1, stack = [''1'']\<rparr>]"

definition exTraceWrap :: "structLog list" where
  "exTraceWrap =
     [\<lparr>pc = 0, op = ''SLOAD'', gas = 3000000000, gasCost = 2147483648, depth = 1, stack = [''0'']\<rparr>,
      \<lparr>pc = 0, op = ''SLOAD'', gas = 852516352, gasCost = 1, depth = 1, stack = [''0'']\<rparr>]"

text \<open>The run has not printed that the target is not a contract.\<close>

definition quiet :: "state \<Rightarrow> bool" where
  "quiet st = (TargetNotContract \<notin> set (console st))"

section \<open>Properties\<close>

subsection \<open>Address normalisation\<close>

text \<open>Unfolding on numerals, for evaluating concrete inputs.\<close>

lemma fixedHex_numeral:
  "fixedHex (numeral k) n = fixedHex (pred_numeral k) (n div 16) @ [hexDigit (n mod 16)]"
  by (simp only: numeral_eq_Suc [of k] fixedHex.simps)

lemma replicate_numeral: "replicate (numeral k) x = x # replicate (pred_numeral k) x"
  by (simp only: numeral_eq_Suc [of k] replicate.simps)

lemma length_fixedHex: "length (fixedHex k n) = k"
  by (induction k arbitrary: n) auto

lemma fixedHex_zero: "fixedHex k 0 = replicate k (CHR ''0'')"
  by (induction k) (auto simp: hexDigit_def replicate_append_same)

lemma toHex_nonempty: "toHex n \<noteq> []"
  by (subst toHex.simps) simp

lemma div16_less: "n < 16 ^ Suc k \<Longrightarrow> n div 16 < (16::nat) ^ k"
  by (simp add: less_mult_imp_div_less mult.commute)

lemma length_toHex: "n < 16 ^ k \<Longrightarrow> 0 < k \<Longrightarrow> length (toHex n) \<le> k"
proof (induction k arbitrary: n)
  case 0
  then show ?case by simp
next
  case (Suc k)
  show ?case
  proof (cases "n < 16")
    case True
    then show ?thesis by (simp add: toHex.simps)
  next
    case False
    then have k: "0 < k" using Suc.prems by (cases k) auto
    from Suc.IH [OF div16_less [OF Suc.prems(1)] k] False show ?thesis
      by (subst toHex.simps) simp
  qed
qed

lemma pad_toHex:
  "n < 16 ^ k \<Longrightarrow> 0 < k \<Longrightarrow>
   replicate (k - length (toHex n)) (CHR ''0'') @ toHex n = fixedHex k n"
proof (induction k arbitrary: n)
  case 0
  then show ?case by simp
next
  case (Suc k)
  show ?case
  proof (cases "n < 16")
    case True
    then show ?thesis
      by (simp add: toHex.simps [of n] fixedHex_zero)
  next
    case False
    then have k: "0 < k" using Suc.prems by (cases k) auto
    have d: "n div 16 < 16 ^ k" by (rule div16_less [OF Suc.prems(1)])
    have l: "length (toHex (n div 16)) \<le> k" by (rule length_toHex [OF d k])
    from Suc.IH [OF d k] False l show ?thesis
      by (subst (1 2) toHex.simps) (simp add: Suc_diff_le)
  qed
qed

lemma BN_toString16_40:
  assumes "n < 16 ^ 40"
  shows "BN_toString16 n 40 = fixedHex 40 n"
proof -
  have l: "length (toHex n) \<le> 40" using length_toHex [OF assms] by simp
  have n0: "length (toHex n) \<noteq> 0" using toHex_nonempty by simp
  have "(40 - length (toHex n) mod 40) mod 40 = 40 - length (toHex n)"
    using l n0 by (cases "length (toHex n) = 40") auto
  then show ?thesis using pad_toHex [OF assms] by (simp add: BN_toString16_def Let_def)
qed

text \<open>
  A non-empty hexadecimal word (with or without the \<open>0x\<close> prefix) whose value is below
  \<open>2 ^ 160\<close>, that is whose bytes above the low 20 are zero, is normalised to its low 20
  bytes written as 40 lowercase hexadecimal characters with leading zeros.
\<close>

lemma normalizeAddress_low20:
  assumes "w \<noteq> []" and "BN_parseHex (strip0x_str w) = Some v" and "v < 2 ^ 160"
  shows "normalizeAddress (Str w) = Inr (Str (low20Hex v)) \<and> length (low20Hex v) = 40"
proof -
  have "(2::nat) ^ 160 = 16 ^ 40" by simp
  then have v: "v < 16 ^ 40" using assms(3) by simp
  then have "v mod 2 ^ 160 = v" using assms(3) by simp
  then show ?thesis using assms(1,2) BN_toString16_40 [OF v]
    by (simp add: normalizeAddress_def low20Hex_def length_fixedHex)
qed

lemma normalizeAddress_low20_example:
  "normalizeAddress (Str ''0x00000000000000000000000052908400098527886E0F7030069857D2E4169EE7'')
     = Inr (Str ''52908400098527886e0f7030069857d2e4169ee7'')"
proof -
  have p: "BN_parseHex (strip0x_str ''0x00000000000000000000000052908400098527886E0F7030069857D2E4169EE7'')
             = Some 471360049350540672339372329809862569580528312039"
    by (simp add: BN_parseHex_def hexDigitVal_def)
  have b: "(471360049350540672339372329809862569580528312039::nat) < 2 ^ 160" by simp
  have l: "low20Hex 471360049350540672339372329809862569580528312039
             = ''52908400098527886e0f7030069857d2e4169ee7''"
    by (simp add: low20Hex_def hexDigit_def fixedHex_numeral)
  show ?thesis using normalizeAddress_low20 [OF _ p b] l by simp
qed

text \<open>
  C6 does not hold of the code when a byte above the low 20 is not zero. The 32-byte
  word \<open>10\<dots>0\<close> has 64 significant digits; its low 20 bytes are all zero, and the
  normalised address should be 40 zeros. The code asks the big-number library for a
  width of 40 but never reduces the word to its low 20 bytes, so the library pads
  the 64 digits to the next multiple of 40 and the result has 80 characters.
\<close>

theorem normalizeAddress_high_bytes_kept:
  "BN_parseHex ''1000000000000000000000000000000000000000000000000000000000000000'' = Some (16 ^ 63)
   \<and> normalizeAddress (Str ''1000000000000000000000000000000000000000000000000000000000000000'')
     = Inr (Str ''00000000000000001000000000000000000000000000000000000000000000000000000000000000'')
   \<and> low20Hex (16 ^ 63) = ''0000000000000000000000000000000000000000''"
  by (simp add: BN_parseHex_def hexDigitVal_def normalizeAddress_def BN_toString16_def
      toHex.simps low20Hex_def hexDigit_def fixedHex_numeral replicate_numeral)

text \<open>
  C10: a falsy input (\<open>null\<close>, \<open>undefined\<close> or the empty string) is returned
  unchanged: a missing address stays missing, it does not become a 40-character string.
\<close>

theorem normalizeAddress_falsy:
  "\<not> truthy v \<Longrightarrow> normalizeAddress v = Inr v"
  by (simp add: normalizeAddress_def)

theorem normalizeAddress_falsy_witness:
  "\<not> truthy Null \<and> normalizeAddress Null = Inr Null
   \<and> \<not> truthy Undefined \<and> normalizeAddress Undefined = Inr Undefined
   \<and> \<not> truthy (Str []) \<and> normalizeAddress (Str []) = Inr (Str [])"
  using normalizeAddress_falsy [of Null] normalizeAddress_falsy [of Undefined]
    normalizeAddress_falsy [of "Str []"]
  by simp

subsection \<open>PC-to-instruction mapper\<close>

lemma update_fresh: "k \<notin> fst ` set al \<Longrightarrow> AList.update k v al = al @ [(k, v)]"
  by (induction al) auto

lemma nextPc_greater: "q < nextPc code q"
  by (simp add: nextPc_def Let_def)

lemma buildPcLoop_truncLast:
  "length m = idx \<Longrightarrow> \<forall>(p, i) \<in> set m. nextPc code p \<le> q \<Longrightarrow> truncLast code m
   \<Longrightarrow> truncLast code (buildPcLoop code q idx m)"
proof (induction code q idx m rule: buildPcLoop.induct)
  case (1 code q idx m)
  show ?case
  proof (cases "2 * q < length code")
    case False
    then show ?thesis using "1.prems" by (simp add: buildPcLoop.simps)
  next
    case True
    have fresh: "q \<notin> fst ` set m"
    proof
      assume "q \<in> fst ` set m"
      then obtain i where "(q, i) \<in> set m" by auto
      with "1.prems"(2) have "nextPc code q \<le> q" by auto
      with nextPc_greater [of q code] show False by simp
    qed
    then have upd: "AList.update q idx m = m @ [(q, idx)]" by (rule update_fresh)
    have notr: "\<not> truncatedPush code p" if "(p, i) \<in> set m" for p i
    proof -
      from that "1.prems"(2) have "nextPc code p \<le> q" by auto
      with True show ?thesis by (simp add: truncatedPush_def)
    qed
    have a: "length (AList.update q idx m) = idx + 1" using "1.prems"(1) upd by simp
    have b: "\<forall>(p, i) \<in> set (AList.update q idx m). nextPc code p \<le> nextPc code q"
      using "1.prems"(2) nextPc_greater [of q code] by (auto simp: upd)
    have c: "truncLast code (AList.update q idx m)"
      using notr "1.prems"(1) by (auto simp: truncLast_def upd)
    from "1.IH" [OF True a b c] True show ?thesis by (simp add: buildPcLoop.simps [of code q])
  qed
qed

lemmas mapper_eval = buildPcToInstructionMapping_def buildPcLoop.simps truncatedPush_def nextPc_def isPush_def
      byteAt_def charAtText_def parseInt16_def isSpace_def isHexDigit_def hexDigitVal_def hexValue_def

text \<open>
  C4, as the code has it: the mapper has no failing path. For a bytecode in which a PUSH's
  immediate bytes extend past the end it returns a mapping all the same, in which the
  truncated PUSH is the last instruction recorded: its entry is the last one and its
  instruction index is the number of instructions minus one.
\<close>

theorem buildPc_truncated_push_last:
  assumes "(p, i) \<in> set (buildPcToInstructionMapping code)" and "truncatedPush code p"
  shows "last (buildPcToInstructionMapping code) = (p, i)
         \<and> Suc i = length (buildPcToInstructionMapping code)"
proof -
  have "truncLast code (buildPcLoop code 0 0 [])"
    by (rule buildPcLoop_truncLast) (simp_all add: truncLast_def)
  with assms show ?thesis by (auto simp: truncLast_def buildPcToInstructionMapping_def)
qed

theorem buildPc_truncated_push_last_witness:
  "(2, 1) \<in> set (buildPcToInstructionMapping ''600160'') \<and> truncatedPush ''600160'' 2
   \<and> last (buildPcToInstructionMapping ''600160'') = (2, 1)
   \<and> Suc 1 = length (buildPcToInstructionMapping ''600160'')"
proof -
  have m: "buildPcToInstructionMapping ''600160'' = [(0, 0), (2, 1)]"
    by (simp add: mapper_eval)
  have t: "truncatedPush ''600160'' 2"
    by (simp add: mapper_eval)
  have i: "(2, 1) \<in> set (buildPcToInstructionMapping ''600160'')"
    by (simp add: m)
  from buildPc_truncated_push_last [OF i t] i t show ?thesis by simp
qed

text \<open>
  C4 as stated fails: \<open>60\<close> is a PUSH1 whose one immediate byte is missing, and the
  mapper returns the mapping \<open>{0: 0}\<close> for it rather than an error.
\<close>

theorem buildPc_truncated_counterexample:
  "truncatedPush ''60'' 0 \<and> buildPcToInstructionMapping ''60'' = [(0, 0)]"
  by (simp add: mapper_eval)

subsection \<open>Source-map decoder\<close>

lemma inheritField_same: "inheritField x prev = (a, b) \<Longrightarrow> a = b"
  by (auto simp: inheritField_def split: if_splits)

lemma inheritField_fst:
  "fst (inheritField x prev) = (if explicit x then x else prev)"
  by (simp add: inheritField_def explicit_def)

lemma inheritField_snd: "snd (inheritField x prev) = fst (inheritField x prev)"
  by (simp add: inheritField_def)

lemma length_parseSections: "length (parseSections prev secs) = length secs"
  by (induction secs arbitrary: prev) (auto simp: Let_def split: prod.splits)

lemma parseSections_fields:
  "k < length secs \<Longrightarrow>
   (let es = parseSections (prevS, prevL, prevF, prevJ) secs;
        parts = split (CHR '':'') (secs ! k)
    in sm_s (es ! k) = (if explicit (fieldAt parts 0) then Number_js (fieldAt parts 0)
                        else prevField sm_s (Number_js prevS) es k)
     \<and> sm_l (es ! k) = (if explicit (fieldAt parts 1) then Number_js (fieldAt parts 1)
                        else prevField sm_l (Number_js prevL) es k)
     \<and> sm_f (es ! k) = (if explicit (fieldAt parts 2) then Number_js (fieldAt parts 2)
                        else prevField sm_f (Number_js prevF) es k)
     \<and> sm_j (es ! k) = (if explicit (fieldAt parts 3) then fieldAt parts 3
                        else prevField sm_j prevJ es k))"
proof (induction secs arbitrary: k prevS prevL prevF prevJ)
  case Nil
  then show ?case by simp
next
  case (Cons sec rest)
  show ?case
  proof (cases k)
    case 0
    then show ?thesis
      by (simp add: Let_def prevField_def split_beta inheritField_fst)
  next
    case (Suc k')
    with Cons.prems have k': "k' < length rest" by simp
    show ?thesis
      using Cons.IH [OF k', of "snd (inheritField (fieldAt (split (CHR '':'') sec) 0) prevS)"
          "snd (inheritField (fieldAt (split (CHR '':'') sec) 1) prevL)"
          "snd (inheritField (fieldAt (split (CHR '':'') sec) 2) prevF)"
          "snd (inheritField (fieldAt (split (CHR '':'') sec) 3) prevJ)"] Suc
      by (cases k') (simp_all add: Let_def prevField_def split_beta inheritField_snd)
  qed
qed

lemmas decoder_eval = parseSourceMap_def split_def trim_def isSpace_def fieldAt_def inheritField_def
  Number_str_def isDigit_def decValue_def explicit_def prevField_def

text \<open>
  C3: in the decoded sequence of any raw source map, each of the fields s, l, f, j of
  the entry at position \<open>k\<close> is the value written in segment \<open>k\<close> when the segment
  gives the field (present and not empty: \<open>Number\<close> of its text for s, l, f, the text
  itself for j), and otherwise the same field of the previous decoded entry; before the
  first entry nothing was decoded and an omitted field is \<open>Number(undefined)\<close>, for j
  \<open>undefined\<close>.
\<close>

theorem parseSourceMap_inheritance:
  assumes "k < length (parseSourceMap raw)"
  shows "(let es = parseSourceMap raw;
              parts = split (CHR '':'') (split (CHR '';'') (trim raw) ! k)
          in sm_s (es ! k) = (if explicit (fieldAt parts 0) then Number_js (fieldAt parts 0)
                              else prevField sm_s (Number_js Undefined) es k)
           \<and> sm_l (es ! k) = (if explicit (fieldAt parts 1) then Number_js (fieldAt parts 1)
                              else prevField sm_l (Number_js Undefined) es k)
           \<and> sm_f (es ! k) = (if explicit (fieldAt parts 2) then Number_js (fieldAt parts 2)
                              else prevField sm_f (Number_js Undefined) es k)
           \<and> sm_j (es ! k) = (if explicit (fieldAt parts 3) then fieldAt parts 3
                              else prevField sm_j Undefined es k))"
proof -
  from assms have "k < length (split (CHR '';'') (trim raw))"
    by (simp add: parseSourceMap_def length_parseSections)
  from parseSections_fields [OF this] show ?thesis
    by (simp add: parseSourceMap_def)
qed

theorem parseSourceMap_inheritance_witness:
  "2 < length (parseSourceMap '' 0:5:1:-;:6;7::2'')
   \<and> parseSourceMap '' 0:5:1:-;:6;7::2'' ! 2
       = \<lparr>sm_s = Num 7, sm_l = Num 6, sm_f = Num 2, sm_j = Str ''-''\<rparr>
   \<and> sm_l (parseSourceMap '' 0:5:1:-;:6;7::2'' ! 2) = sm_l (parseSourceMap '' 0:5:1:-;:6;7::2'' ! 1)"
proof -
  have e: "parseSourceMap '' 0:5:1:-;:6;7::2''
     = [\<lparr>sm_s = Num 0, sm_l = Num 5, sm_f = Num 1, sm_j = Str ''-''\<rparr>,
        \<lparr>sm_s = Num 0, sm_l = Num 6, sm_f = Num 1, sm_j = Str ''-''\<rparr>,
        \<lparr>sm_s = Num 7, sm_l = Num 6, sm_f = Num 2, sm_j = Str ''-''\<rparr>]"
    by (simp add: decoder_eval)
  have l: "2 < length (parseSourceMap '' 0:5:1:-;:6;7::2'')"
    by (simp add: e)
  from parseSourceMap_inheritance [OF l] l show ?thesis
    by (simp add: e)
qed

subsection \<open>Call-target extractor\<close>

lemma scanSameDepth_find:
  "scanSameDepth logs d i = find (\<lambda>l. depth l = d) (drop i logs)"
proof (induction logs d i rule: scanSameDepth.induct)
  case (1 logs d i)
  show ?case
  proof (cases "i < length logs")
    case False
    then show ?thesis by (simp add: scanSameDepth.simps)
  next
    case True
    then have dr: "drop i logs = logs ! i # drop (Suc i) logs"
      by (simp add: Cons_nth_drop_Suc)
    show ?thesis
      using True "1.IH" by (subst scanSameDepth.simps) (simp add: dr)
  qed
qed

text \<open>
  C2: for a log whose op is CREATE or CREATE2, at index \<open>i\<close>, the extractor answers
  \<open>isConstructionCall = true\<close>; its address is the normalised stack top of the first
  log after index \<open>i\<close> whose depth is the depth of the CREATE log, and \<open>null\<close> when
  there is no such log. (When the big-number library rejects the stack top, so does the
  extractor.)
\<close>

theorem getCallTarget_create:
  assumes "op lg = ''CREATE'' \<or> op lg = ''CREATE2''"
  shows "getCallTarget lg i logs =
     (case find (\<lambda>l. depth l = depth lg) (drop (Suc i) logs) of
        None \<Rightarrow> Inr \<lparr>ct_addressHexStr = Null, ct_isConstructionCall = True\<rparr>
      | Some nxt \<Rightarrow>
          (case normalizeAddress (stackFromTop nxt 1) of
             Inl e \<Rightarrow> Inl e
           | Inr a \<Rightarrow> Inr \<lparr>ct_addressHexStr = a, ct_isConstructionCall = True\<rparr>))"
  using assms by (auto simp: getCallTarget_def scanSameDepth_find)

theorem getCallTarget_create_witness:
  "getCallTarget \<lparr>pc = 5, op = ''CREATE'', gas = 900, gasCost = 32000, depth = 1, stack = [''0'', ''20'', ''0'']\<rparr> 0
     [\<lparr>pc = 5, op = ''CREATE'', gas = 900, gasCost = 32000, depth = 1, stack = [''0'', ''20'', ''0'']\<rparr>,
      \<lparr>pc = 0, op = ''STOP'', gas = 800, gasCost = 0, depth = 2, stack = []\<rparr>,
      \<lparr>pc = 6, op = ''POP'', gas = 850, gasCost = 2, depth = 1, stack = [''0xab'']\<rparr>]
   = Inr \<lparr>ct_addressHexStr = Str ''00000000000000000000000000000000000000ab'', ct_isConstructionCall = True\<rparr>"
  using getCallTarget_create [of "\<lparr>pc = 5, op = ''CREATE'', gas = 900, gasCost = 32000, depth = 1, stack = [''0'', ''20'', ''0'']\<rparr>" 0
     "[\<lparr>pc = 5, op = ''CREATE'', gas = 900, gasCost = 32000, depth = 1, stack = [''0'', ''20'', ''0'']\<rparr>,
      \<lparr>pc = 0, op = ''STOP'', gas = 800, gasCost = 0, depth = 2, stack = []\<rparr>,
      \<lparr>pc = 6, op = ''POP'', gas = 850, gasCost = 2, depth = 1, stack = [''0xab'']\<rparr>]"]
  by (simp add: stackFromTop_def normalizeAddress_def BN_parseHex_def hexDigitVal_def BN_toString16_def
      toHex.simps hexDigit_def replicate_numeral)

subsection \<open>Line gas\<close>

lemma toInt32_eq: "toInt32 v = (v + 2 ^ 31) mod 2 ^ 32 - 2 ^ 31"
  by (simp add: toInt32_def int_word_sint)

lemma toInt32_id: "- (2 ^ 31) \<le> v \<Longrightarrow> v < 2 ^ 31 \<Longrightarrow> toInt32 v = v"
  by (simp add: toInt32_eq)

lemma lineGas_increaseLineGasCost:
  assumes "r < length (sources st)" and "\<not> skip (sources st ! r)"
  shows "lineGas (sources (increaseLineGasCost (Some r) (Some ln) cost isCall st) ! r) ln
         = Some (orZero (lineGas (sources st ! r) ln) + cost)"
  using assms by (simp add: increaseLineGasCost_def chargeLine_def)

text \<open>
  C9: when gas is charged to a line, the value accumulated so far is first coerced to a
  signed 32-bit integer, an absent entry reading as 0, and the cost is added to that:
  the stored value is \<open>((v + 2^31) mod 2^32 - 2^31) + cost\<close>. This is ordinary addition
  \<open>v + cost\<close> while \<open>v\<close> is within the signed 32-bit range; a stored value beyond
  \<open>2^31 - 1\<close> is cut modulo \<open>2^32\<close> when it is read for the next charge.
\<close>

theorem increaseLineGasCost_int32:
  assumes "r < length (sources st)" and "\<not> skip (sources st ! r)"
  shows "(let old = lineGas (sources st ! r) ln;
              new = lineGas (sources (increaseLineGasCost (Some r) (Some ln) cost isCall st) ! r) ln
          in (old = None \<longrightarrow> new = Some cost)
           \<and> (\<forall>v. old = Some v \<longrightarrow> new = Some ((v + 2 ^ 31) mod 2 ^ 32 - 2 ^ 31 + cost))
           \<and> (\<forall>v. old = Some v \<and> - (2 ^ 31) \<le> v \<and> v < 2 ^ 31 \<longrightarrow> new = Some (v + cost))
           \<and> (\<forall>v. old = Some v \<and> \<not> (- (2 ^ 31) \<le> v \<and> v < 2 ^ 31) \<longrightarrow> new \<noteq> Some (v + cost)))"
proof -
  have out: "toInt32 v \<noteq> v" if "\<not> (- (2 ^ 31) \<le> v \<and> v < 2 ^ 31)" for v
  proof -
    have "- (2 ^ 31) \<le> toInt32 v \<and> toInt32 v < 2 ^ 31"
      by (simp add: toInt32_eq)
    with that show ?thesis by auto
  qed
  show ?thesis
    using assms out
    by (auto simp: Let_def lineGas_increaseLineGasCost orZero_def toInt32_id)
       (simp add: toInt32_eq)
qed

theorem increaseLineGasCost_int32_witness:
  "lineGas (sources (increaseLineGasCost (Some 0) (Some 3) 5 False
                      (initialState\<lparr>sources := [exSource 2147483648]\<rparr>)) ! 0) 3
     = Some (- 2147483643)
   \<and> lineGas (sources (increaseLineGasCost (Some 0) (Some 3) 5 False
                      (initialState\<lparr>sources := [exSource 7]\<rparr>)) ! 0) 3
     = Some 12
   \<and> lineGas (sources (increaseLineGasCost (Some 0) (Some 4) 5 False
                      (initialState\<lparr>sources := [exSource 7]\<rparr>)) ! 0) 4
     = Some 5"
  using increaseLineGasCost_int32 [of 0 "initialState\<lparr>sources := [exSource 2147483648]\<rparr>" 3 5 False]
    increaseLineGasCost_int32 [of 0 "initialState\<lparr>sources := [exSource 7]\<rparr>" 3 5 False]
    increaseLineGasCost_int32 [of 0 "initialState\<lparr>sources := [exSource 7]\<rparr>" 4 5 False]
  by (simp add: Let_def exSource_def makeSource_def initialState_def)

subsection \<open>What a step of the replay leaves unchanged\<close>

lemma getSourceForFilename_frame:
  "getSourceForFilename e fn st = (r, st') \<Longrightarrow>
   callStack st' = callStack st \<and> contractByAddr st' = contractByAddr st"
  by (auto simp: getSourceForFilename_def Let_def warn_def split: option.splits if_splits)

lemma getSourceWithId_frame:
  "getSourceWithId e sid st = (r, st') \<Longrightarrow>
   callStack st' = callStack st \<and> contractByAddr st' = contractByAddr st"
  by (auto simp: getSourceWithId_def warn_def dest: getSourceForFilename_frame
      split: option.splits list.splits)

lemma contractKeys_modifyContract [simp]: "contractKeys (modifyContract key f st) = contractKeys st"
  by (simp add: contractKeys_def modifyContract_def dom_map_entry)

lemma callStack_modifyContract [simp]: "callStack (modifyContract key f st) = callStack st"
  by (simp add: modifyContract_def)

lemma callStack_warn [simp]: "callStack (warn m st) = callStack st"
  by (simp add: warn_def)

lemma contractByAddr_warn [simp]: "contractByAddr (warn m st) = contractByAddr st"
  by (simp add: warn_def)

lemma contractKeys_warn [simp]: "contractKeys (warn m st) = contractKeys st"
  by (simp add: contractKeys_def)

lemma callStack_warnGasCost [simp]: "callStack (warnGasCost lg st) = callStack st"
  by (simp add: warnGasCost_def)

lemma contractKeys_warnGasCost [simp]: "contractKeys (warnGasCost lg st) = contractKeys st"
  by (simp add: warnGasCost_def)

lemma callStack_increaseLineGasCost [simp]:
  "callStack (increaseLineGasCost source line cost isCall st) = callStack st"
  by (simp add: increaseLineGasCost_def split: option.splits)

lemma contractKeys_increaseLineGasCost [simp]:
  "contractKeys (increaseLineGasCost source line cost isCall st) = contractKeys st"
  by (simp add: increaseLineGasCost_def contractKeys_def split: option.splits)

lemma contractKeys_callStack_update [simp]: "contractKeys (st\<lparr>callStack := cs\<rparr>) = contractKeys st"
  by (simp add: contractKeys_def)

lemma getSourcePosition_frame:
  assumes "getSourcePosition e call lg st = Inr (res, st')"
  shows "callStack st' = callStack st \<and> contractKeys st' = contractKeys st"
proof -
  have *: "callStack (snd (getSourceWithId e sid st)) = callStack st
           \<and> contractKeys (snd (getSourceWithId e sid st)) = contractKeys st" for sid
    using getSourceWithId_frame [of e sid st] by (cases "getSourceWithId e sid st") (simp add: contractKeys_def)
  from assms show ?thesis
    by (auto simp: getSourcePosition_def Let_def split_beta * split: option.splits if_splits)
qed

lemma getContractWithAddr_shape:
  assumes "getContractWithAddr e addr st = Inr (r, st')"
  shows "\<exists>a. normalizeAddress addr = Inr a \<and> r = Some (keyOf a) \<and> callStack st' = callStack st
           \<and> (contractByAddr st' = contractByAddr st \<and> map_of (contractByAddr st) (keyOf a) \<noteq> None
               \<or> (\<exists>c. contractByAddr st' = AList.update (keyOf a) c (contractByAddr st)))"
  using assms
  by (auto simp: getContractWithAddr_def Let_def warn_def
      split: sum.splits option.splits if_splits)

lemma getContractWithAddr_frame:
  assumes "getContractWithAddr e addr st = Inr (r, st')"
  shows "callStack st' = callStack st \<and> contractKeys st \<subseteq> contractKeys st'
         \<and> (\<exists>a. normalizeAddress addr = Inr a \<and> r = Some (keyOf a) \<and> keyOf a \<in> contractKeys st')"
proof -
  from getContractWithAddr_shape [OF assms] obtain a where a: "normalizeAddress addr = Inr a"
    and r: "r = Some (keyOf a)" and cs: "callStack st' = callStack st"
    and d: "contractByAddr st' = contractByAddr st \<and> map_of (contractByAddr st) (keyOf a) \<noteq> None
            \<or> (\<exists>c. contractByAddr st' = AList.update (keyOf a) c (contractByAddr st))"
    by blast
  from d have "contractKeys st \<subseteq> contractKeys st' \<and> keyOf a \<in> contractKeys st'"
  proof
    assume "contractByAddr st' = contractByAddr st \<and> map_of (contractByAddr st) (keyOf a) \<noteq> None"
    then show ?thesis by (simp add: contractKeys_def map_of_eq_None_iff)
  next
    assume "\<exists>c. contractByAddr st' = AList.update (keyOf a) c (contractByAddr st)"
    then obtain c where "contractByAddr st' = AList.update (keyOf a) c (contractByAddr st)" ..
    then have "contractKeys st' = {keyOf a} \<union> contractKeys st"
      by (simp add: contractKeys_def dom_update)
    then show ?thesis by blast
  qed
  with a r cs show ?thesis by blast
qed

lemma popFrame_frame:
  assumes "popFrame logs i st = Inr st'"
  shows "callStack st' = butlast (callStack st) \<and> callStack st \<noteq> [] \<and> contractKeys st' = contractKeys st"
  using assms
  by (auto simp: popFrame_def Let_def split: if_splits option.splits)

lemma unwind_frame:
  "unwind logs b i st = Inr st' \<Longrightarrow>
   (\<exists>n. callStack st' = take n (callStack st)) \<and> contractKeys st' = contractKeys st
   \<and> \<not> depth (logs ! i) - b < int (length (callStack st')) - 1"
proof (induction logs b i st rule: unwind.induct)
  case (1 logs b i st)
  show ?case
  proof (cases "depth (logs ! i) - b < int (length (callStack st)) - 1")
    case False
    with "1.prems" have "st' = st" by (simp add: unwind.simps)
    with False show ?thesis by (auto intro: exI [of _ "length (callStack st)"])
  next
    case True
    with "1.prems" obtain st1 where p: "popFrame logs i st = Inr st1"
      and u: "unwind logs b i st1 = Inr st'"
      by (auto simp: unwind.simps [of logs b i st] split: sum.splits)
    from "1.IH" [OF True p u] obtain n where n: "callStack st' = take n (callStack st1)"
      and k: "contractKeys st' = contractKeys st1"
      and d: "\<not> depth (logs ! i) - b < int (length (callStack st')) - 1" by auto
    from popFrame_frame [OF p] have b: "callStack st1 = butlast (callStack st)"
      and k1: "contractKeys st1 = contractKeys st" by auto
    have "callStack st' = take (min n (length (callStack st) - 1)) (callStack st)"
      by (simp add: n b butlast_conv_take min.commute)
    with k k1 d show ?thesis by blast
  qed
qed

lemma sources_modifyContract [simp]: "sources (modifyContract key f st) = sources st"
  by (simp add: modifyContract_def)

lemma sources_warn [simp]: "sources (warn m st) = sources st"
  by (simp add: warn_def)

lemma sources_warnGasCost [simp]: "sources (warnGasCost lg st) = sources st"
  by (simp add: warnGasCost_def)

lemma getContractWithAddr_sources:
  "getContractWithAddr e addr st = Inr (r, st') \<Longrightarrow> sources st' = sources st"
  by (auto simp: getContractWithAddr_def Let_def warn_def split: sum.splits option.splits if_splits)

lemma step_cases:
  assumes "step e logs b i st = Inr st'"
  shows "\<exists>st1 st2 source line isSynthOp.
           unwind logs b i (warnGasCost (logs ! i) st) = Inr st1
         \<and> 0 \<le> depth (logs ! i) - b
         \<and> length (callStack st1) = Suc (nat (depth (logs ! i) - b))
         \<and> getSourcePosition e (callStack st1 ! nat (depth (logs ! i) - b)) (logs ! i) st1
             = Inr ((source, line, isSynthOp), st2)
         \<and> (callStack st' = callStack st1 \<and> contractKeys st' = contractKeys st2
              \<and> (sources st' = sources st2
                  \<or> st' = increaseLineGasCost source line (getGasCost (logs ! i)) False st2)
            \<or> (\<exists>target isCons.
                  callStack st' =
                    (callStack st1)[nat (depth (logs ! i) - b) :=
                       (callStack st1 ! nat (depth (logs ! i) - b))
                         \<lparr>outgoingCallSource := source, outgoingCallLine := line,
                          gasBeforeOutgoingCall := gas (logs ! i)\<rparr>]
                    @ [(makeCallStackItem target)
                         \<lparr>isConstructionCall := isCons, gasBefore := gas (logs ! Suc i)\<rparr>])
               \<and> contractKeys st2 \<subseteq> contractKeys st' \<and> sources st' = sources st2
               \<and> Suc i < length logs \<and> depth (logs ! i) < depth (logs ! Suc i))"
proof -
  define k where "k = nat (depth (logs ! i) - b)"
  from assms obtain st1 where u: "unwind logs b i (warnGasCost (logs ! i) st) = Inr st1"
    by (auto simp: step_def Let_def split: sum.splits)
  from unwind_frame [OF u] have nd: "\<not> depth (logs ! i) - b < int (length (callStack st1)) - 1"
    by simp
  from assms u have len: "0 < length (callStack st1)"
    and d0: "0 \<le> depth (logs ! i) - b" and d1: "depth (logs ! i) - b < int (length (callStack st1))"
    by (auto simp: step_def Let_def split: if_splits)
  from nd d0 d1 have lk: "length (callStack st1) = Suc k" by (simp add: k_def)
  from assms u len d0 d1 obtain source line isSynthOp st2
    where g: "getSourcePosition e (callStack st1 ! k) (logs ! i) st1 = Inr ((source, line, isSynthOp), st2)"
    by (auto simp: step_def Let_def k_def split: sum.splits if_splits)
  from getSourcePosition_frame [OF g] have cs2: "callStack st2 = callStack st1" by simp
  from assms u len d0 d1 g obtain tgt where t: "getCallTarget (logs ! i) i logs = Inr tgt"
    by (auto simp: step_def Let_def k_def split: sum.splits if_splits)
  let ?push = "truthy (ct_addressHexStr tgt) \<and> Suc i < length logs \<and> depth (logs ! i) < depth (logs ! Suc i)"
  have "callStack st' = callStack st1 \<and> contractKeys st' = contractKeys st2
          \<and> (sources st' = sources st2
              \<or> st' = increaseLineGasCost source line (getGasCost (logs ! i)) False st2)
        \<or> (\<exists>target isCons.
              callStack st' =
                (callStack st1)[k := (callStack st1 ! k)
                     \<lparr>outgoingCallSource := source, outgoingCallLine := line,
                      gasBeforeOutgoingCall := gas (logs ! i)\<rparr>]
                @ [(makeCallStackItem target)
                     \<lparr>isConstructionCall := isCons, gasBefore := gas (logs ! Suc i)\<rparr>])
           \<and> contractKeys st2 \<subseteq> contractKeys st' \<and> sources st' = sources st2
           \<and> Suc i < length logs \<and> depth (logs ! i) < depth (logs ! Suc i)"
  proof (cases ?push)
    case False
    with assms u len d0 d1 g t cs2 show ?thesis
      by (auto simp: step_def Let_def k_def split: if_splits option.splits)
  next
    case True
    let ?st3 = "st2\<lparr>callStack := (callStack st2)[k := (callStack st1 ! k)
                     \<lparr>outgoingCallSource := source, outgoingCallLine := line,
                      gasBeforeOutgoingCall := gas (logs ! i)\<rparr>]\<rparr>"
    from assms u len d0 d1 g t True obtain target st4
      where c: "getContractWithAddr e (ct_addressHexStr tgt) ?st3 = Inr (target, st4)"
        and s: "st' = st4\<lparr>callStack := callStack st4 @
                 [(makeCallStackItem target)
                    \<lparr>isConstructionCall := ct_isConstructionCall tgt, gasBefore := gas (logs ! Suc i)\<rparr>]\<rparr>"
      by (auto simp: step_def Let_def k_def split: sum.splits if_splits)
    from getContractWithAddr_frame [OF c] have "callStack st4 = callStack ?st3"
      and "contractKeys ?st3 \<subseteq> contractKeys st4" by auto
    moreover from getContractWithAddr_sources [OF c] have "sources st4 = sources st2" by simp
    ultimately show ?thesis using s cs2 True by auto
  qed
  with u d0 lk g show ?thesis unfolding k_def by blast
qed

lemma step_keys:
  assumes "step e logs b i st = Inr st'"
  shows "contractKeys st \<subseteq> contractKeys st'"
proof -
  from step_cases [OF assms] obtain st1 st2 source line isSynthOp
    where u: "unwind logs b i (warnGasCost (logs ! i) st) = Inr st1"
      and g: "getSourcePosition e (callStack st1 ! nat (depth (logs ! i) - b)) (logs ! i) st1
              = Inr ((source, line, isSynthOp), st2)"
      and k: "contractKeys st' = contractKeys st2 \<or> contractKeys st2 \<subseteq> contractKeys st'"
    by blast
  from unwind_frame [OF u] have "contractKeys st1 = contractKeys st" by simp
  moreover from getSourcePosition_frame [OF g] have "contractKeys st2 = contractKeys st1" by simp
  ultimately show ?thesis using k by auto
qed

lemma runSteps_keys:
  assumes "\<And>i st st'. body i st = Inr st' \<Longrightarrow> contractKeys st \<subseteq> contractKeys st'"
  shows "runSteps body is st = Inr st' \<Longrightarrow> contractKeys st \<subseteq> contractKeys st'"
proof (induction "is" arbitrary: st)
  case Nil
  then show ?case by simp
next
  case (Cons i rest)
  from Cons.prems obtain st1 where b: "body i st = Inr st1" and r: "runSteps body rest st1 = Inr st'"
    by (auto split: sum.splits)
  from assms [OF b] Cons.IH [OF r] show ?case by blast
qed

lemma replay_keys:
  "replay e logs b st = Inr st' \<Longrightarrow> contractKeys st \<subseteq> contractKeys st'"
  unfolding replay_def by (rule runSteps_keys [where body = "step e logs b"]) (rule step_keys)

lemma map_of_modifyContract:
  "map_of (contractByAddr (modifyContract key f st)) key = map_option f (map_of (contractByAddr st) key)"
  by (simp add: modifyContract_def map_of_map_entry split: option.splits)

text \<open>
  After the replay loop the \<^emph>\<open>entry contract's\<close> \<open>totalGasCost\<close> is
  \<open>firstLog.gas - lastLog.gas + gasCost(lastLog)\<close>: it is assigned, not added to, after
  the loop; the entry contract is the one registered under the normalised entry address.
\<close>

lemma main_entry_totalGasCost:
  assumes "main e rcpt tx logs = Inr st"
    and "normalizeAddress (if \<not> truthy (tx_to tx) \<and> truthy (contractAddress rcpt)
                           then contractAddress rcpt else tx_to tx) = Inr a"
  shows "map_option totalGasCost (map_of (contractByAddr st) (keyOf a))
         = Some (gas (logs ! 0) - gas (last logs) + getGasCost (last logs))"
proof -
  let ?entryAddr = "if \<not> truthy (tx_to tx) \<and> truthy (contractAddress rcpt)
                    then contractAddress rcpt else tx_to tx"
  let ?st0 = "warn (GasUsed (gasUsed rcpt)) initialState"
  from assms(1) obtain r st1 where c: "getContractWithAddr e ?entryAddr ?st0 = Inr (r, st1)"
    by (auto simp: main_def Let_def split: if_splits sum.splits)
  from getContractWithAddr_frame [OF c] assms(2) have r: "r = Some (keyOf a)"
    and k1: "keyOf a \<in> contractKeys st1" by auto
  let ?entryCall = "(makeCallStackItem (Some (keyOf a)))
                      \<lparr>isConstructionCall := \<not> truthy (tx_to tx) \<and> truthy (contractAddress rcpt)\<rparr>"
  from assms(1) c r obtain st2 where ne: "logs \<noteq> []"
    and rp: "replay e logs (depth (logs ! 0)) (st1\<lparr>callStack := [?entryCall]\<rparr>) = Inr st2"
    and st: "st = modifyContract (keyOf a)
                    (\<lambda>c. c\<lparr>totalGasCost := gas (logs ! 0) - gas (logs ! (length logs - 1))
                                              + getGasCost (logs ! (length logs - 1))\<rparr>)
                    (warnGasCost (logs ! (length logs - 1)) st2)"
    by (auto simp: main_def Let_def split: if_splits sum.splits)
  from replay_keys [OF rp] k1 have "keyOf a \<in> contractKeys st2" by auto
  then have "keyOf a \<in> fst ` set (contractByAddr (warnGasCost (logs ! (length logs - 1)) st2))"
    using contractKeys_warnGasCost [of "logs ! (length logs - 1)" st2] by (simp add: contractKeys_def)
  then obtain c0 where "map_of (contractByAddr (warnGasCost (logs ! (length logs - 1)) st2)) (keyOf a) = Some c0"
    by (metis map_of_eq_None_iff not_Some_eq)
  then show ?thesis using ne by (simp add: st map_of_modifyContract last_conv_nth)
qed

text \<open>
  While no nested frame is entered the registry keeps the contracts it has: the replay
  looks up a contract only when it pushes a frame.
\<close>

lemma keys_map_entry: "map fst (AList.map_entry k f al) = map fst al"
  by (induction al) auto

lemma registry_modifyContract [simp]:
  "map fst (contractByAddr (modifyContract key f st)) = map fst (contractByAddr st)"
  by (simp add: modifyContract_def keys_map_entry)

lemma registry_warnGasCost [simp]: "contractByAddr (warnGasCost lg st) = contractByAddr st"
  by (simp add: warnGasCost_def)

lemma registry_increaseLineGasCost [simp]:
  "contractByAddr (increaseLineGasCost source line cost isCall st) = contractByAddr st"
  by (simp add: increaseLineGasCost_def split: option.splits)

lemma getSourcePosition_registry:
  assumes "getSourcePosition e call lg st = Inr (res, st')"
  shows "map fst (contractByAddr st') = map fst (contractByAddr st)"
proof -
  have *: "contractByAddr (snd (getSourceWithId e sid st)) = contractByAddr st" for sid
    using getSourceWithId_frame [of e sid st] by (cases "getSourceWithId e sid st") simp
  from assms show ?thesis
    by (auto simp: getSourcePosition_def Let_def split_beta * split: option.splits if_splits)
qed

lemma popFrame_registry:
  assumes "popFrame logs i st = Inr st'"
  shows "map fst (contractByAddr st') = map fst (contractByAddr st)"
  using assms
  by (auto simp: popFrame_def Let_def split: if_splits option.splits)

lemma unwind_registry:
  "unwind logs b i st = Inr st' \<Longrightarrow> map fst (contractByAddr st') = map fst (contractByAddr st)"
proof (induction logs b i st rule: unwind.induct)
  case (1 logs b i st)
  show ?case
  proof (cases "depth (logs ! i) - b < int (length (callStack st)) - 1")
    case False
    with "1.prems" show ?thesis by (simp add: unwind.simps)
  next
    case True
    with "1.prems" obtain st1 where p: "popFrame logs i st = Inr st1"
      and u: "unwind logs b i st1 = Inr st'"
      by (auto simp: unwind.simps [of logs b i st] split: sum.splits)
    from "1.IH" [OF True p u] popFrame_registry [OF p] show ?thesis by simp
  qed
qed

lemma step_registry:
  assumes "step e logs b i st = Inr st'"
    and "\<not> (Suc i < length logs \<and> depth (logs ! i) < depth (logs ! Suc i))"
  shows "map fst (contractByAddr st') = map fst (contractByAddr st)"
proof -
  define k where "k = nat (depth (logs ! i) - b)"
  from assms(1) obtain st1 where u: "unwind logs b i (warnGasCost (logs ! i) st) = Inr st1"
    by (auto simp: step_def Let_def split: sum.splits)
  from assms(1) u have len: "0 < length (callStack st1)"
    and d0: "0 \<le> depth (logs ! i) - b" and d1: "depth (logs ! i) - b < int (length (callStack st1))"
    by (auto simp: step_def Let_def split: if_splits)
  from assms(1) u len d0 d1 obtain source line isSynthOp st2
    where g: "getSourcePosition e (callStack st1 ! k) (logs ! i) st1 = Inr ((source, line, isSynthOp), st2)"
    by (auto simp: step_def Let_def k_def split: sum.splits if_splits)
  from assms(1) u len d0 d1 g obtain tgt where t: "getCallTarget (logs ! i) i logs = Inr tgt"
    by (auto simp: step_def Let_def k_def split: sum.splits if_splits)
  from assms u len d0 d1 g t have "map fst (contractByAddr st') = map fst (contractByAddr st2)"
    by (auto simp: step_def Let_def k_def split: if_splits option.splits)
  with unwind_registry [OF u] getSourcePosition_registry [OF g] show ?thesis by simp
qed

lemma runSteps_registry:
  assumes "\<And>i st st'. i \<in> set is \<Longrightarrow> body i st = Inr st' \<Longrightarrow>
             map fst (contractByAddr st') = map fst (contractByAddr st)"
  shows "runSteps body is st = Inr st' \<Longrightarrow> map fst (contractByAddr st') = map fst (contractByAddr st)"
  using assms
proof (induction "is" arbitrary: st)
  case Nil
  then show ?case by simp
next
  case (Cons i rest)
  from Cons.prems(1) obtain st1 where b: "body i st = Inr st1" and r: "runSteps body rest st1 = Inr st'"
    by (auto split: sum.splits)
  from Cons.prems(2) [OF _ b] have "map fst (contractByAddr st1) = map fst (contractByAddr st)" by simp
  moreover have "map fst (contractByAddr st') = map fst (contractByAddr st1)"
  proof (rule Cons.IH [OF r])
    fix j s s'
    assume "j \<in> set rest" and "body j s = Inr s'"
    then show "map fst (contractByAddr s') = map fst (contractByAddr s)"
      using Cons.prems(2) [of j s s'] by simp
  qed
  ultimately show ?case by simp
qed

lemma replay_registry:
  assumes "replay e logs b st = Inr st'" and "noNestedCall logs"
  shows "map fst (contractByAddr st') = map fst (contractByAddr st)"
proof -
  have n: "\<not> (Suc i < length logs \<and> depth (logs ! i) < depth (logs ! Suc i))" for i
    using assms(2) by (auto simp: noNestedCall_def list_all_iff)
  show ?thesis
    using assms(1) unfolding replay_def
    by (rule runSteps_registry [where body = "step e logs b", rotated]) (rule step_registry [OF _ n])
qed

text \<open>
  C1, as the code has it: for every run that completes on a trace in which no nested
  frame is entered (no log is followed by a deeper log), after the replay loop the sum
  over all contracts of the registry of their \<open>totalGasCost\<close> is
  \<open>firstLog.gas - lastLog.gas + gasCost(lastLog)\<close>. The entry contract is then the only
  contract of the registry, and its total is assigned after the loop.
\<close>

theorem main_sum_totalGasCost:
  assumes "main e rcpt tx logs = Inr st" and "noNestedCall logs"
  shows "sumTotalGasCost st = gas (logs ! 0) - gas (last logs) + getGasCost (last logs)"
proof -
  let ?entryAddr = "if \<not> truthy (tx_to tx) \<and> truthy (contractAddress rcpt)
                    then contractAddress rcpt else tx_to tx"
  let ?st0 = "warn (GasUsed (gasUsed rcpt)) initialState"
  from assms(1) obtain r st1 where c: "getContractWithAddr e ?entryAddr ?st0 = Inr (r, st1)"
    by (auto simp: main_def Let_def split: if_splits sum.splits)
  from getContractWithAddr_shape [OF c] obtain a where a: "normalizeAddress ?entryAddr = Inr a"
    and r: "r = Some (keyOf a)"
    and d: "contractByAddr st1 = contractByAddr ?st0 \<and> map_of (contractByAddr ?st0) (keyOf a) \<noteq> None
            \<or> (\<exists>c. contractByAddr st1 = AList.update (keyOf a) c (contractByAddr ?st0))"
    by blast
  from d have k1: "map fst (contractByAddr st1) = [keyOf a]"
    by (auto simp: initialState_def)
  let ?entryCall = "(makeCallStackItem (Some (keyOf a)))
                      \<lparr>isConstructionCall := \<not> truthy (tx_to tx) \<and> truthy (contractAddress rcpt)\<rparr>"
  from assms(1) c r obtain st2 where ne: "logs \<noteq> []"
    and rp: "replay e logs (depth (logs ! 0)) (st1\<lparr>callStack := [?entryCall]\<rparr>) = Inr st2"
    and st: "st = modifyContract (keyOf a)
                    (\<lambda>c. c\<lparr>totalGasCost := gas (logs ! 0) - gas (logs ! (length logs - 1))
                                              + getGasCost (logs ! (length logs - 1))\<rparr>)
                    (warnGasCost (logs ! (length logs - 1)) st2)"
    by (auto simp: main_def Let_def split: if_splits sum.splits)
  from replay_registry [OF rp assms(2)] k1 have "map fst (contractByAddr st2) = [keyOf a]" by simp
  then have "map fst (contractByAddr st) = [keyOf a]" by (simp add: st)
  then obtain c' where c': "contractByAddr st = [(keyOf a, c')]"
    by (cases "contractByAddr st") auto
  from main_entry_totalGasCost [OF assms(1) a] c'
  have "totalGasCost c' = gas (logs ! 0) - gas (last logs) + getGasCost (last logs)" by simp
  with c' show ?thesis by (simp add: sumTotalGasCost_def)
qed

lemma take_of_length: "length (take n xs) = m \<Longrightarrow> take n xs = take m xs"
  by (metis length_take min.cobounded1 take_all take_take min_def)

text \<open>
  C7, as the code has it: in a step of the replay the frames below the executing frame
  are left as they are, and then either no frame is pushed and the executing frame is
  left as it is too, with whatever \<open>outgoingCallSource\<close> and \<open>outgoingCallLine\<close> it
  had (unwinding does not clear them), or a nested frame is pushed: the new frame has
  both fields \<open>null\<close>, and the executing frame gets the source position resolved for the
  calling instruction (which is \<open>null\<close> when none resolves).
\<close>

theorem step_outgoing_call_fields:
  assumes "step e logs b i st = Inr st'"
  shows "take (nat (depth (logs ! i) - b)) (callStack st') = take (nat (depth (logs ! i) - b)) (callStack st)
       \<and> (length (callStack st') = Suc (nat (depth (logs ! i) - b))
            \<and> callStack st' ! nat (depth (logs ! i) - b) = callStack st ! nat (depth (logs ! i) - b)
          \<or> length (callStack st') = Suc (Suc (nat (depth (logs ! i) - b)))
            \<and> outgoingCallSource (callStack st' ! Suc (nat (depth (logs ! i) - b))) = None
            \<and> outgoingCallLine (callStack st' ! Suc (nat (depth (logs ! i) - b))) = None
            \<and> (\<exists>st1 st2 source line isSynthOp.
                  unwind logs b i (warnGasCost (logs ! i) st) = Inr st1
                \<and> getSourcePosition e (callStack st1 ! nat (depth (logs ! i) - b)) (logs ! i) st1
                    = Inr ((source, line, isSynthOp), st2)
                \<and> outgoingCallSource (callStack st' ! nat (depth (logs ! i) - b)) = source
                \<and> outgoingCallLine (callStack st' ! nat (depth (logs ! i) - b)) = line))"
proof -
  define k where "k = nat (depth (logs ! i) - b)"
  from step_cases [OF assms] obtain st1 st2 source line isSynthOp
    where u: "unwind logs b i (warnGasCost (logs ! i) st) = Inr st1"
      and lk: "length (callStack st1) = Suc k"
      and g: "getSourcePosition e (callStack st1 ! k) (logs ! i) st1 = Inr ((source, line, isSynthOp), st2)"
      and d: "callStack st' = callStack st1
              \<or> (\<exists>target isCons.
                   callStack st' =
                     (callStack st1)[k := (callStack st1 ! k)
                         \<lparr>outgoingCallSource := source, outgoingCallLine := line,
                          gasBeforeOutgoingCall := gas (logs ! i)\<rparr>]
                     @ [(makeCallStackItem target)
                          \<lparr>isConstructionCall := isCons, gasBefore := gas (logs ! Suc i)\<rparr>])"
    unfolding k_def by blast
  from unwind_frame [OF u] obtain n where "callStack st1 = take n (callStack st)" by auto
  with lk have t: "callStack st1 = take (Suc k) (callStack st)"
    using take_of_length [of n "callStack st" "Suc k"] by simp
  have le: "Suc k \<le> length (callStack st)"
  proof -
    have "length (take (Suc k) (callStack st)) = Suc k" using lk t by simp
    then show ?thesis by simp
  qed
  have tk: "take k (callStack st1) = take k (callStack st)" by (simp add: t min_def)
  have nk: "callStack st1 ! k = callStack st ! k" by (simp add: t)
  from d show ?thesis
  proof
    assume "callStack st' = callStack st1"
    with tk nk lk show ?thesis unfolding k_def [symmetric] by simp
  next
    assume "\<exists>target isCons.
              callStack st' =
                (callStack st1)[k := (callStack st1 ! k)
                    \<lparr>outgoingCallSource := source, outgoingCallLine := line,
                     gasBeforeOutgoingCall := gas (logs ! i)\<rparr>]
                @ [(makeCallStackItem target)
                     \<lparr>isConstructionCall := isCons, gasBefore := gas (logs ! Suc i)\<rparr>]"
    then obtain target isCons where s: "callStack st' =
                (callStack st1)[k := (callStack st1 ! k)
                    \<lparr>outgoingCallSource := source, outgoingCallLine := line,
                     gasBeforeOutgoingCall := gas (logs ! i)\<rparr>]
                @ [(makeCallStackItem target)
                     \<lparr>isConstructionCall := isCons, gasBefore := gas (logs ! Suc i)\<rparr>]"
      by blast
    have l: "length (callStack st') = Suc (Suc k)" by (simp add: s lk)
    have a: "take k (callStack st') = take k (callStack st)" by (simp add: s lk tk)
    have top: "callStack st' ! Suc k = (makeCallStackItem target)
                     \<lparr>isConstructionCall := isCons, gasBefore := gas (logs ! Suc i)\<rparr>"
      by (simp add: s lk nth_append)
    have fk: "callStack st' ! k = (callStack st1 ! k)
                    \<lparr>outgoingCallSource := source, outgoingCallLine := line,
                     gasBeforeOutgoingCall := gas (logs ! i)\<rparr>"
      by (simp add: s lk nth_append)
    have "outgoingCallSource (callStack st' ! Suc k) = None \<and> outgoingCallLine (callStack st' ! Suc k) = None"
      by (simp add: top makeCallStackItem_def)
    moreover have "outgoingCallSource (callStack st' ! k) = source \<and> outgoingCallLine (callStack st' ! k) = line"
      by (simp add: fk)
    ultimately show ?thesis using a l u g unfolding k_def [symmetric] by blast
  qed
qed

subsection \<open>The concrete run, evaluated\<close>

lemmas address_eval = normalizeAddress_def BN_parseHex_def hexDigitVal_def BN_toString16_def
  toHex.simps hexDigit_def replicate_numeral

lemma norm_entry:
  "normalizeAddress (Str ''0x00000000000000000000000000000000000000a1'')
   = Inr (Str ''00000000000000000000000000000000000000a1'')"
  by (simp add: address_eval)

lemma norm_callee:
  "normalizeAddress (Str ''00000000000000000000000000000000000000000000000000000000000000b2'')
   = Inr (Str ''00000000000000000000000000000000000000b2'')"
  by (simp add: address_eval)

lemma norm_callee2:
  "normalizeAddress (Str ''00000000000000000000000000000000000000b2'')
   = Inr (Str ''00000000000000000000000000000000000000b2'')"
  by (simp add: address_eval)

lemmas engine_eval = main_def replay_def step_def unwind.simps popFrame_def getSourcePosition_def
  getSourceWithId_def getSourceForFilename_def getCallTarget_def scanSameDepth.simps stackFromTop_def
  increaseLineGasCost_def chargeLine_def orZero_def warnGasCost_def getGasCostWarns_def getGasCost_def
  warn_def modifyContract_def makeCallStackItem_def makeSource_def makeContract_def initialState_def
  getContractWithAddr_def findContractByDeployedBytecode_def buildLineOffsets_def containsStr_def
  Let_def upt_rec_numeral norm_entry norm_callee norm_callee2 mapper_eval decoder_eval

lemmas example_eval = exEnv_def exReceipt_def exTx_def exTrace_def exClosest_def exEntryAddr_def
  exCalleeAddr_def exContractA_def exState0_def exStateNoCode_def exEnvNoCode_def exTraceNoCall_def exTraceNeg_def
  exTraceFlat_def exTraceGanache_def exTraceGain_def exTraceWrap_def
  returned_def lineGasAt_def totalGasCostOf_def sumTotalGasCost_def

theorem main_sum_totalGasCost_witness:
  "noNestedCall exTraceFlat
   \<and> map_option sumTotalGasCost (returned (main exEnv exReceipt exTx exTraceFlat)) = Some 40
   \<and> gas (exTraceFlat ! 0) - gas (last exTraceFlat) + getGasCost (last exTraceFlat) = 40"
proof -
  have n: "noNestedCall exTraceFlat"
    by (simp add: noNestedCall_def exTraceFlat_def)
  have "\<exists>st. main exEnv exReceipt exTx exTraceFlat = Inr st"
    by (simp add: engine_eval example_eval)
  then obtain st where m: "main exEnv exReceipt exTx exTraceFlat = Inr st" ..
  have f: "gas (exTraceFlat ! 0) - gas (last exTraceFlat) + getGasCost (last exTraceFlat) = 40"
    by (simp add: exTraceFlat_def getGasCost_def getGasCostWarns_def)
  from main_sum_totalGasCost [OF m n] f have "sumTotalGasCost st = 40" by simp
  with m n f show ?thesis by (simp add: returned_def)
qed

text \<open>
  C1 as stated fails: in the concrete run the entry contract calls another contract,
  whose frame spends 3 gas before it returns. The callee's total is 3, the entry
  contract's total is \<open>1000 - 900 + 0 = 100\<close>, and the sum over the registry is 103.
\<close>

theorem sumTotalGasCost_counterexample:
  "map_option sumTotalGasCost (returned (main exEnv exReceipt exTx exTrace)) = Some 103
   \<and> gas (exTrace ! 0) - gas (last exTrace) + getGasCost (last exTrace) = 100"
  by (simp add: engine_eval example_eval)

text \<open>
  C7 as stated fails in both directions. At the end of the concrete run the nested call
  has returned, the entry frame is the only frame of the stack and waits for nothing,
  and its \<open>outgoingCallSource\<close> and \<open>outgoingCallLine\<close> are still set. On the chain
  without code no source position resolves, and after the first step the entry frame
  waits for the nested call with both fields \<open>null\<close>.
\<close>

theorem outgoingCallInvariant_counterexample:
  "map_option callStack (returned (main exEnv exReceipt exTx exTrace))
     = Some [\<lparr>contract = Some exEntryAddr, isConstructionCall = False, gasBefore = 0,
              gasBeforeOutgoingCall = 1000, outgoingCallSource = Some 0, outgoingCallLine = Some 0\<rparr>]
   \<and> \<not> outgoingCallInvariant
          [\<lparr>contract = Some exEntryAddr, isConstructionCall = False, gasBefore = 0,
            gasBeforeOutgoingCall = 1000, outgoingCallSource = Some 0, outgoingCallLine = Some 0\<rparr>]
   \<and> map_option callStack (returned (step exEnvNoCode exTrace 1 0 exStateNoCode))
     = Some [\<lparr>contract = Some exEntryAddr, isConstructionCall = False, gasBefore = 0,
              gasBeforeOutgoingCall = 1000, outgoingCallSource = None, outgoingCallLine = None\<rparr>,
             \<lparr>contract = Some exCalleeAddr, isConstructionCall = False, gasBefore = 600,
              gasBeforeOutgoingCall = 0, outgoingCallSource = None, outgoingCallLine = None\<rparr>]
   \<and> \<not> outgoingCallInvariant
          [\<lparr>contract = Some exEntryAddr, isConstructionCall = False, gasBefore = 0,
            gasBeforeOutgoingCall = 1000, outgoingCallSource = None, outgoingCallLine = None\<rparr>,
           \<lparr>contract = Some exCalleeAddr, isConstructionCall = False, gasBefore = 600,
            gasBeforeOutgoingCall = 0, outgoingCallSource = None, outgoingCallLine = None\<rparr>]"
  by (simp add: engine_eval example_eval outgoingCallInvariant_def)

theorem step_outgoing_call_fields_witness:
  "\<exists>st'. step exEnv exTrace 1 0 exState0 = Inr st'
        \<and> length (callStack st') = 2
        \<and> outgoingCallSource (callStack st' ! 1) = None \<and> outgoingCallLine (callStack st' ! 1) = None
        \<and> outgoingCallSource (callStack st' ! 0) = Some 0 \<and> outgoingCallLine (callStack st' ! 0) = Some 0"
proof -
  have "\<exists>st'. step exEnv exTrace 1 0 exState0 = Inr st'
         \<and> outgoingCallSource (callStack st' ! 0) = Some 0 \<and> outgoingCallLine (callStack st' ! 0) = Some 0
         \<and> length (callStack st') \<noteq> 1"
    by (simp add: engine_eval example_eval)
  then obtain st' where s: "step exEnv exTrace 1 0 exState0 = Inr st'"
    and f: "outgoingCallSource (callStack st' ! 0) = Some 0" "outgoingCallLine (callStack st' ! 0) = Some 0"
    and l: "length (callStack st') \<noteq> 1" by blast
  have d: "nat (depth (exTrace ! 0) - 1) = 0" by (simp add: exTrace_def)
  from step_outgoing_call_fields [OF s] l
  have "length (callStack st') = 2 \<and> outgoingCallSource (callStack st' ! 1) = None
        \<and> outgoingCallLine (callStack st' ! 1) = None"
    unfolding d by auto
  with s f show ?thesis by blast
qed

text \<open>
  C8 as stated fails: a log with a negative gas cost for an opcode other than RETURN,
  REVERT and STOP is charged as it is, and the entry of its line is negative after the
  replay.
\<close>

theorem lineGas_nonneg_counterexample:
  "getGasCost (exTraceNeg ! 0) = - 5
   \<and> map_option (lineGasAt 0 0) (returned (main exEnv exReceipt exTx exTraceNeg)) = Some (Some (- 5))
   \<and> map_option lineGasNonneg (returned (main exEnv exReceipt exTx exTraceNeg)) = Some False"
proof -
  have "\<exists>st. main exEnv exReceipt exTx exTraceNeg = Inr st \<and> lineGas (sources st ! 0) 0 = Some (- 5)
          \<and> 0 < length (sources st)"
    by (simp add: engine_eval example_eval)
  then obtain st where m: "main exEnv exReceipt exTx exTraceNeg = Inr st"
    and g: "lineGas (sources st ! 0) 0 = Some (- 5)" and l: "0 < length (sources st)" by blast
  have "\<not> lineGasNonneg st"
  proof
    assume "lineGasNonneg st"
    with l g have "(0::int) \<le> - 5" unfolding lineGasNonneg_def by blast
    then show False by simp
  qed
  with m g show ?thesis
    by (simp add: returned_def lineGasAt_def exTraceNeg_def getGasCost_def getGasCostWarns_def)
qed

text \<open>
  Without a negative gas cost an entry can still become negative in two ways: when a
  nested call returns with more gas left than before the call, the difference is charged
  to the line of the call; and an entry that has reached \<open>2^31\<close> is read back as
  \<open>- 2^31\<close> by the next charge.
\<close>

lemma lineGas_negative_without_negative_cost:
  "list_all (\<lambda>l. 0 \<le> getGasCost l) exTraceGain
   \<and> map_option (lineGasAt 0 0) (returned (main exEnv exReceipt exTx exTraceGain)) = Some (Some (- 100))
   \<and> list_all (\<lambda>l. 0 \<le> getGasCost l) exTraceWrap
   \<and> map_option (lineGasAt 0 0) (returned (main exEnv exReceipt exTx exTraceWrap))
     = Some (Some (- 2147483647))"
  by (simp add: engine_eval example_eval toInt32_eq)

subsection \<open>Empty code at the entry address\<close>

lemma quiet_warn [simp]: "m \<noteq> TargetNotContract \<Longrightarrow> quiet (warn m st) = quiet st"
  by (auto simp: quiet_def warn_def)

lemma quiet_warnGasCost [simp]: "quiet (warnGasCost lg st) = quiet st"
  by (simp add: warnGasCost_def)

lemma quiet_modifyContract [simp]: "quiet (modifyContract key f st) = quiet st"
  by (simp add: quiet_def modifyContract_def)

lemma quiet_increaseLineGasCost [simp]: "quiet (increaseLineGasCost source line cost isCall st) = quiet st"
  by (simp add: quiet_def increaseLineGasCost_def split: option.splits)

lemma quiet_callStack_update [simp]: "quiet (st\<lparr>callStack := cs\<rparr>) = quiet st"
  by (simp add: quiet_def)

lemma getSourceForFilename_quiet:
  "getSourceForFilename e fn st = (r, st') \<Longrightarrow> quiet st' = quiet st"
  by (auto simp: getSourceForFilename_def Let_def quiet_def warn_def split: option.splits if_splits)

lemma getSourceWithId_quiet:
  "getSourceWithId e sid st = (r, st') \<Longrightarrow> quiet st' = quiet st"
  by (auto simp: getSourceWithId_def quiet_def warn_def dest: getSourceForFilename_quiet
      split: option.splits list.splits)

lemma getSourcePosition_quiet:
  assumes "getSourcePosition e call lg st = Inr (res, st')"
  shows "quiet st' = quiet st"
proof -
  have *: "quiet (snd (getSourceWithId e sid st)) = quiet st" for sid
    using getSourceWithId_quiet [of e sid st] by (cases "getSourceWithId e sid st") simp
  from assms show ?thesis
    by (auto simp: getSourcePosition_def Let_def split_beta * split: option.splits if_splits)
qed

lemma getContractWithAddr_quiet:
  assumes "getContractWithAddr e addr st = Inr (r, st')"
  shows "quiet st' = quiet st \<and> r \<noteq> None"
  using assms
  by (auto simp: getContractWithAddr_def Let_def quiet_def warn_def
      split: sum.splits option.splits if_splits)

lemma popFrame_quiet: "popFrame logs i st = Inr st' \<Longrightarrow> quiet st' = quiet st"
  by (auto simp: popFrame_def Let_def split: if_splits option.splits)

lemma unwind_quiet: "unwind logs b i st = Inr st' \<Longrightarrow> quiet st' = quiet st"
proof (induction logs b i st rule: unwind.induct)
  case (1 logs b i st)
  show ?case
  proof (cases "depth (logs ! i) - b < int (length (callStack st)) - 1")
    case False
    with "1.prems" show ?thesis by (simp add: unwind.simps)
  next
    case True
    with "1.prems" obtain st1 where p: "popFrame logs i st = Inr st1"
      and u: "unwind logs b i st1 = Inr st'"
      by (auto simp: unwind.simps [of logs b i st] split: sum.splits)
    from "1.IH" [OF True p u] popFrame_quiet [OF p] show ?thesis by simp
  qed
qed

lemma step_quiet:
  assumes "step e logs b i st = Inr st'"
  shows "quiet st' = quiet st"
proof -
  from assms obtain st1 where u: "unwind logs b i (warnGasCost (logs ! i) st) = Inr st1"
    by (auto simp: step_def Let_def split: sum.splits)
  from unwind_quiet [OF u] have q1: "quiet st1 = quiet st" by simp
  from assms u obtain source line isSynthOp st2
    where g: "getSourcePosition e (callStack st1 ! nat (depth (logs ! i) - b)) (logs ! i) st1
              = Inr ((source, line, isSynthOp), st2)"
    by (auto simp: step_def Let_def split: sum.splits if_splits)
  from getSourcePosition_quiet [OF g] have q2: "quiet st2 = quiet st1" .
  from assms u g obtain tgt where t: "getCallTarget (logs ! i) i logs = Inr tgt"
    by (auto simp: step_def Let_def split: sum.splits if_splits)
  let ?push = "truthy (ct_addressHexStr tgt) \<and> Suc i < length logs \<and> depth (logs ! i) < depth (logs ! Suc i)"
  have "quiet st' = quiet st2"
  proof (cases ?push)
    case False
    with assms u g t show ?thesis
      by (auto simp: step_def Let_def split: if_splits option.splits)
  next
    case True
    with assms u g t obtain st3 target st4
      where c: "getContractWithAddr e (ct_addressHexStr tgt) st3 = Inr (target, st4)"
        and q3: "quiet st3 = quiet st2"
        and s: "quiet st' = quiet st4"
      by (auto simp: step_def Let_def split: sum.splits if_splits)
    from getContractWithAddr_quiet [OF c] q3 s show ?thesis by simp
  qed
  with q1 q2 show ?thesis by simp
qed

lemma runSteps_quiet:
  assumes "\<And>i st st'. body i st = Inr st' \<Longrightarrow> quiet st' = quiet st"
  shows "runSteps body is st = Inr st' \<Longrightarrow> quiet st' = quiet st"
proof (induction "is" arbitrary: st)
  case Nil
  then show ?case by simp
next
  case (Cons i rest)
  from Cons.prems obtain st1 where b: "body i st = Inr st1" and r: "runSteps body rest st1 = Inr st'"
    by (auto split: sum.splits)
  from assms [OF b] Cons.IH [OF r] show ?case by simp
qed

lemma replay_quiet: "replay e logs b st = Inr st' \<Longrightarrow> quiet st' = quiet st"
  unfolding replay_def by (rule runSteps_quiet [where body = "step e logs b"]) (rule step_quiet)

lemma main_never_reports_non_contract:
  assumes "main e rcpt tx logs = Inr st"
  shows "TargetNotContract \<notin> set (console st) \<and> logs \<noteq> []
         \<and> (\<exists>st1 st2 entryCall. replay e logs (depth (logs ! 0)) (st1\<lparr>callStack := [entryCall]\<rparr>) = Inr st2)"
proof -
  let ?entryAddr = "if \<not> truthy (tx_to tx) \<and> truthy (contractAddress rcpt)
                    then contractAddress rcpt else tx_to tx"
  let ?st0 = "warn (GasUsed (gasUsed rcpt)) initialState"
  have q0: "quiet ?st0" by (simp add: quiet_def warn_def initialState_def)
  from assms obtain r st1 where c: "getContractWithAddr e ?entryAddr ?st0 = Inr (r, st1)"
    by (auto simp: main_def Let_def split: if_splits sum.splits)
  from getContractWithAddr_quiet [OF c] q0 obtain key where r: "r = Some key" and q1: "quiet st1" by auto
  from assms c r obtain st2 entryCall where ne: "logs \<noteq> []"
    and rp: "replay e logs (depth (logs ! 0)) (st1\<lparr>callStack := [entryCall]\<rparr>) = Inr st2"
    and st: "quiet st = quiet st2"
    by (auto simp: main_def Let_def split: if_splits sum.splits)
  from replay_quiet [OF rp] q1 st have "quiet st" by simp
  with ne rp show ?thesis unfolding quiet_def by blast
qed

text \<open>
  C5 does not hold of the code. With empty code at the entry address,
  getContractWithAddr warns and returns the contract object it has just created, which
  is not falsy, so main does not print that the target is not a contract: it replays the
  trace and sets the total of the entry contract (here \<open>1000 - 997 + 0 = 3\<close>). With
  an empty trace, as for a plain transfer, the run ends in a \<open>TypeError\<close> instead.
\<close>

theorem main_empty_code_replays:
  "map_option console (returned (main exEnvNoCode exReceipt exTx exTraceNoCall))
     = Some [GasUsed 21100, WarnNoCode exEntryAddr]
   \<and> map_option (totalGasCostOf exEntryAddr) (returned (main exEnvNoCode exReceipt exTx exTraceNoCall))
     = Some (Some 3)
   \<and> main exEnvNoCode exReceipt exTx [] = Inl TypeError"
  by (simp add: engine_eval example_eval)

subsection \<open>Non-negative line gas\<close>

lemma lineGasWithin_mono: "lineGasWithin B st \<Longrightarrow> B \<le> B' \<Longrightarrow> lineGasWithin B' st"
  by (fastforce simp: lineGasWithin_def)

lemma lineGasWithin_nonneg: "lineGasWithin B st \<Longrightarrow> lineGasNonneg st"
  by (simp add: lineGasWithin_def lineGasNonneg_def)

lemma lineGasWithin_same: "lineGasWithin B st \<Longrightarrow> sources st' = sources st \<Longrightarrow> lineGasWithin B st'"
  by (simp add: lineGasWithin_def)

lemma lineGasWithin_append:
  assumes "lineGasWithin B st" and "sources st' = sources st @ [s]" and "lineGas s = Map.empty"
  shows "lineGasWithin B st'"
  unfolding lineGasWithin_def
proof (intro allI impI)
  fix r k v
  assume r: "r < length (sources st')" and v: "lineGas (sources st' ! r) k = Some v"
  show "0 \<le> v \<and> v \<le> B"
  proof (cases "r < length (sources st)")
    case True
    with v assms(1,2) show ?thesis by (simp add: lineGasWithin_def nth_append)
  next
    case False
    with r assms(2) have "sources st' ! r = s" by (simp add: nth_append)
    with v assms(3) show ?thesis by simp
  qed
qed

lemma chargeLine_within:
  assumes "\<forall>k v. lineGas src k = Some v \<longrightarrow> 0 \<le> v \<and> v \<le> B"
    and "0 \<le> cost" and "cost \<le> M" and "0 \<le> B" and "B < 2 ^ 31"
    and "lineGas (chargeLine ln cost isCall src) k = Some v"
  shows "0 \<le> v \<and> v \<le> B + M"
proof (cases "k = ln")
  case False
  with assms(1,2,3,6) have "0 \<le> v \<and> v \<le> B" by (simp add: chargeLine_def)
  with assms(2,3) show ?thesis by simp
next
  case True
  show ?thesis
  proof (cases "lineGas src ln")
    case None
    with True assms(2,3,4,6) show ?thesis by (auto simp: chargeLine_def orZero_def)
  next
    case (Some w)
    with assms(1) have w: "0 \<le> w" "w \<le> B" by auto
    with assms(5) have "toInt32 w = w" by (simp add: toInt32_id)
    with True Some assms(2,3,6) w show ?thesis by (auto simp: chargeLine_def orZero_def)
  qed
qed

lemma increaseLineGasCost_within:
  assumes "lineGasWithin B st" and "0 \<le> cost" and "cost \<le> M" and "0 \<le> B" and "B < 2 ^ 31"
  shows "lineGasWithin (B + M) (increaseLineGasCost source line cost isCall st)"
proof -
  have M: "0 \<le> M" using assms(2,3) by simp
  have keep: "lineGasWithin (B + M) st" using assms(1) M by (auto intro: lineGasWithin_mono)
  show ?thesis
  proof (cases source)
    case None
    with keep show ?thesis by (simp add: increaseLineGasCost_def)
  next
    case (Some r)
    show ?thesis
    proof (cases line)
      case None
      with Some keep show ?thesis by (simp add: increaseLineGasCost_def)
    next
      case (Some ln)
      show ?thesis
      proof (cases "skip (sources st ! r)")
        case True
        with \<open>source = Some r\<close> Some keep show ?thesis by (simp add: increaseLineGasCost_def)
      next
        case False
        have st': "increaseLineGasCost source line cost isCall st
                   = st\<lparr>sources := (sources st)[r := chargeLine ln cost isCall (sources st ! r)]\<rparr>"
          using False \<open>source = Some r\<close> Some by (simp add: increaseLineGasCost_def)
        show ?thesis
          unfolding lineGasWithin_def st'
        proof (intro allI impI)
          fix r' k v
          assume r': "r' < length (sources (st\<lparr>sources := (sources st)[r := chargeLine ln cost isCall (sources st ! r)]\<rparr>))"
            and v: "lineGas (sources (st\<lparr>sources := (sources st)[r := chargeLine ln cost isCall (sources st ! r)]\<rparr>) ! r') k = Some v"
          from r' have len: "r' < length (sources st)" by simp
          show "0 \<le> v \<and> v \<le> B + M"
          proof (cases "r' = r")
            case False
            with v len keep show ?thesis by (auto simp: lineGasWithin_def)
          next
            case True
            with v len have c: "lineGas (chargeLine ln cost isCall (sources st ! r)) k = Some v" by simp
            have a1: "\<forall>k v. lineGas (sources st ! r) k = Some v \<longrightarrow> 0 \<le> v \<and> v \<le> B"
              using assms(1) len True by (auto simp: lineGasWithin_def)
            from chargeLine_within [OF a1 assms(2,3,4,5) c] show ?thesis .
          qed
        qed
      qed
    qed
  qed
qed

lemma getSourceForFilename_sources:
  "appendedEmpty st (snd (getSourceForFilename e fn st))"
  by (simp add: getSourceForFilename_def Let_def warn_def makeSource_def appendedEmpty_def
      split: option.splits)

lemma getSourceWithId_sources:
  "appendedEmpty st (snd (getSourceWithId e sid st))"
proof (cases "map_of (sourceById st) sid")
  case (Some cached)
  then show ?thesis by (simp add: getSourceWithId_def appendedEmpty_def)
next
  case None
  define found where "found = find (\<lambda>sourceFileName.
                         case map_of (solcSources e) sourceFileName of
                           None \<Rightarrow> False
                         | Some i \<Rightarrow> Num i = sid)
                  (map fst (solcSources e))"
  have g: "getSourceWithId e sid st =
             (case found of
                Some (c # cs) \<Rightarrow> getSourceForFilename e (c # cs) st
              | _ \<Rightarrow>
                  (length (sources st),
                   warn (WarnNoSourceWithId sid)
                     (st\<lparr>sources := sources st @ [makeSource (Some sid) None],
                         sourceById := AList.update sid (length (sources st)) (sourceById st)\<rparr>)))"
    using None by (simp add: getSourceWithId_def found_def)
  show ?thesis
  proof (cases found)
    case None
    then show ?thesis by (simp add: g warn_def makeSource_def appendedEmpty_def)
  next
    case (Some fn)
    show ?thesis
    proof (cases fn)
      case Nil
      with Some show ?thesis by (simp add: g warn_def makeSource_def appendedEmpty_def)
    next
      case (Cons c cs)
      with Some show ?thesis by (simp add: g getSourceForFilename_sources)
    qed
  qed
qed

lemma appendedEmpty_within:
  assumes "appendedEmpty st st'" and "lineGasWithin B st"
  shows "lineGasWithin B st'"
proof -
  from assms(1) have "sources st' = sources st
      \<or> sources st' = sources st @ [last (sources st')] \<and> lineGas (last (sources st')) = Map.empty"
    by (simp only: appendedEmpty_def)
  then show ?thesis
  proof (elim disjE conjE)
    assume "sources st' = sources st"
    with assms(2) show ?thesis by (rule lineGasWithin_same)
  next
    assume a: "sources st' = sources st @ [last (sources st')]"
      and b: "lineGas (last (sources st')) = Map.empty"
    show ?thesis by (rule lineGasWithin_append [OF assms(2) a b])
  qed
qed

lemma getSourceWithId_within:
  "lineGasWithin B st \<Longrightarrow> lineGasWithin B (snd (getSourceWithId e sid st))"
  by (rule appendedEmpty_within [OF getSourceWithId_sources])

lemma lineGasWithin_modifyContract [simp]: "lineGasWithin B (modifyContract key f st) = lineGasWithin B st"
  by (simp add: lineGasWithin_def modifyContract_def)

lemma lineGasWithin_warn [simp]: "lineGasWithin B (warn m st) = lineGasWithin B st"
  by (simp add: lineGasWithin_def warn_def)

lemma lineGasWithin_warnGasCost [simp]: "lineGasWithin B (warnGasCost lg st) = lineGasWithin B st"
  by (simp add: warnGasCost_def)

lemma lineGasWithin_callStack_update [simp]: "lineGasWithin B (st\<lparr>callStack := cs\<rparr>) = lineGasWithin B st"
  by (simp add: lineGasWithin_def)

lemma getSourcePosition_within:
  assumes "getSourcePosition e call lg st = Inr (res, st')" and "lineGasWithin B st"
  shows "lineGasWithin B st'"
proof -
  have *: "lineGasWithin B (snd (getSourceWithId e sid st))" for sid
    using assms(2) by (rule getSourceWithId_within)
  from assms show ?thesis
    by (auto simp: getSourcePosition_def Let_def split_beta * split: option.splits if_splits)
qed

lemma lineGasWithin_iff: "lineGasWithin 2147483647 st = (lineGasNonneg st \<and> lineGasBelow st)"
  by (fastforce simp: lineGasWithin_def lineGasNonneg_def lineGasBelow_def)

lemma increaseLineGasCost_nonneg:
  assumes "lineGasNonneg st" and "lineGasBelow st" and "0 \<le> cost"
  shows "lineGasNonneg (increaseLineGasCost source line cost isCall st)"
proof -
  from assms(1,2) have "lineGasWithin 2147483647 st" by (simp add: lineGasWithin_iff)
  from increaseLineGasCost_within [OF this assms(3) order_refl]
  have "lineGasWithin (2147483647 + cost) (increaseLineGasCost source line cost isCall st)" by simp
  then show ?thesis by (rule lineGasWithin_nonneg)
qed

lemma lineGasNonneg_same: "lineGasNonneg st \<Longrightarrow> sources st' = sources st \<Longrightarrow> lineGasNonneg st'"
  by (simp add: lineGasNonneg_def)

lemma lineGasBelow_same: "lineGasBelow st \<Longrightarrow> sources st' = sources st \<Longrightarrow> lineGasBelow st'"
  by (simp add: lineGasBelow_def)

lemma chargesNonneg_cost:
  assumes "chargesNonneg logs" and "i < length logs"
  shows "0 \<le> getGasCost (logs ! i)"
  using assms by (simp add: chargesNonneg_def list_all_length)

lemma chargesNonneg_returns:
  assumes "chargesNonneg logs" and "i < length logs" and "i' < i" and "callReturns logs i' i"
  shows "gas (logs ! i) \<le> gas (logs ! i')"
proof -
  from assms(1) have "\<forall>i < length logs. \<forall>i' < i.
      callReturns logs i' i \<longrightarrow> gas (logs ! i) \<le> gas (logs ! i')"
    by (simp add: chargesNonneg_def list_all_iff)
  with assms(2,3,4) show ?thesis by blast
qed

lemma callReturnsI:
  assumes "depth (logs ! i') < depth (logs ! Suc i')"
    and "\<And>t. i' < t \<Longrightarrow> t < i \<Longrightarrow> depth (logs ! i') < depth (logs ! t)"
    and "depth (logs ! i) \<le> depth (logs ! i')"
  shows "callReturns logs i' i"
  using assms by (simp add: callReturns_def list_all_iff)

lemma popFrame_nonneg:
  assumes p: "popFrame logs i st = Inr st'" and n: "lineGasNonneg st" and b: "lineGasBelow st"
    and c: "0 \<le> gasBeforeOutgoingCall (last (butlast (callStack st))) - gas (logs ! i)"
  shows "lineGasNonneg st'"
proof -
  from p obtain st2 where s: "st' = increaseLineGasCost (outgoingCallSource (last (butlast (callStack st))))
                                   (outgoingCallLine (last (butlast (callStack st))))
                                   (gasBeforeOutgoingCall (last (butlast (callStack st))) - gas (logs ! i)) True st2"
    and s2: "sources st2 = sources st"
    by (auto simp: popFrame_def Let_def split: if_splits option.splits)
  from n s2 have n2: "lineGasNonneg st2" by (rule lineGasNonneg_same)
  from b s2 have b2: "lineGasBelow st2" by (rule lineGasBelow_same)
  from increaseLineGasCost_nonneg [OF n2 b2 c] show ?thesis by (simp add: s)
qed

lemma popFrame_two:
  assumes "popFrame logs i st = Inr st'"
  shows "2 \<le> length (callStack st)"
proof -
  from assms have "callStack st \<noteq> []" and "butlast (callStack st) \<noteq> []"
    by (auto simp: popFrame_def Let_def split: if_splits option.splits)
  then show ?thesis by (cases "callStack st" rule: rev_cases) (auto simp: Suc_le_eq)
qed

lemma pendingCalls_butlast:
  "pendingCalls logs b i cs \<Longrightarrow> pendingCalls logs b i (butlast cs)"
  by (simp add: pendingCalls_def nth_butlast)

lemma unwind_nonneg:
  "i < length logs \<Longrightarrow> chargesNonneg logs \<Longrightarrow> pendingCalls logs b i (callStack st) \<Longrightarrow>
   lineGasNonneg st \<Longrightarrow> list_all lineGasBelow (unwindPoints logs b i st) \<Longrightarrow>
   list_all lineGasNonneg (unwindPoints logs b i st)
   \<and> (\<forall>st1. unwind logs b i st = Inr st1 \<longrightarrow> lineGasNonneg st1 \<and> lineGasBelow st1)"
proof (induction logs b i st rule: unwind.induct)
  case (1 logs b i st)
  let ?cs = "callStack st"
  from "1.prems"(5) have below: "lineGasBelow st"
    by (simp add: unwindPoints.simps [of logs b i st])
  show ?case
  proof (cases "depth (logs ! i) - b < int (length ?cs) - 1")
    case False
    with "1.prems"(4) below show ?thesis
      by (simp add: unwind.simps [of logs b i st] unwindPoints.simps [of logs b i st])
  next
    case True
    show ?thesis
    proof (cases "popFrame logs i st")
      case (Inl err)
      with True "1.prems"(4) show ?thesis
        by (simp add: unwind.simps [of logs b i st] unwindPoints.simps [of logs b i st])
    next
      case (Inr st')
      note p = Inr
      from popFrame_frame [OF p] have bl: "callStack st' = butlast ?cs" by simp
      from popFrame_two [OF p] have two: "2 \<le> length ?cs" .
      define j where "j = length ?cs - 2"
      from two have sj: "Suc j < length ?cs" and jl: "int j = int (length ?cs) - 2"
        by (simp_all add: j_def)
      have top: "last (butlast ?cs) = ?cs ! j"
      proof -
        have ne: "butlast ?cs \<noteq> []" using two by (cases ?cs rule: rev_cases) auto
        have jb: "j < length (butlast ?cs)" using two by (simp add: j_def)
        have "last (butlast ?cs) = butlast ?cs ! (length (butlast ?cs) - 1)"
          using ne by (rule last_conv_nth)
        also have "length (butlast ?cs) - 1 = j" by (simp add: j_def)
        also have "butlast ?cs ! j = ?cs ! j" using jb by (rule nth_butlast)
        finally show ?thesis .
      qed
      from "1.prems"(3) sj obtain i' where i': "i' < i" and d: "depth (logs ! i') = b + int j"
        and call: "depth (logs ! i') < depth (logs ! Suc i')"
        and g: "gasBeforeOutgoingCall (?cs ! j) = gas (logs ! i')"
        and deeper: "\<forall>t. i' < t \<and> t < i \<longrightarrow> depth (logs ! i') < depth (logs ! t)"
        unfolding pendingCalls_def by blast
      from True d jl have "depth (logs ! i) \<le> depth (logs ! i')" by simp
      with call deeper have "callReturns logs i' i" by (intro callReturnsI) auto
      from chargesNonneg_returns [OF "1.prems"(2,1) i' this] have le: "gas (logs ! i) \<le> gas (logs ! i')" .
      have c1: "0 \<le> gasBeforeOutgoingCall (last (butlast ?cs)) - gas (logs ! i)"
        using le by (simp add: top g)
      from popFrame_nonneg [OF p "1.prems"(4) below c1] have n': "lineGasNonneg st'" .
      have pend': "pendingCalls logs b i (callStack st')"
        using "1.prems"(3) by (simp add: bl pendingCalls_butlast)
      from "1.prems"(5) True p have b': "list_all lineGasBelow (unwindPoints logs b i st')"
        by (simp add: unwindPoints.simps [of logs b i st])
      from "1.IH" [OF True p "1.prems"(1,2) pend' n' b']
      show ?thesis using True p "1.prems"(4)
        by (simp add: unwind.simps [of logs b i st] unwindPoints.simps [of logs b i st])
    qed
  qed
qed

lemma lineGasNonneg_warnGasCost [simp]: "lineGasNonneg (warnGasCost lg st) = lineGasNonneg st"
  by (simp add: lineGasNonneg_def)

lemma step_inv:
  assumes s: "step e logs b i st = Inr st'" and inv: "replayInv logs b i st"
    and i: "i < length logs" and tr: "chargesNonneg logs"
    and below: "list_all lineGasBelow (unwindPoints logs b i (warnGasCost (logs ! i) st))"
  shows "replayInv logs b (Suc i) st'"
proof -
  define k where "k = nat (depth (logs ! i) - b)"
  let ?cs = "callStack st"
  from inv have len0: "0 < length ?cs"
    and pend: "pendingCalls logs b i ?cs"
    and nonneg: "lineGasNonneg st"
    by (simp_all add: replayInv_def)
  from chargesNonneg_cost [OF tr i] have cost: "0 \<le> getGasCost (logs ! i)" .
  from step_cases [OF s] obtain st1 st2 source line isSynthOp
    where u: "unwind logs b i (warnGasCost (logs ! i) st) = Inr st1"
      and d0: "0 \<le> depth (logs ! i) - b"
      and lk: "length (callStack st1) = Suc k"
      and g: "getSourcePosition e (callStack st1 ! k) (logs ! i) st1 = Inr ((source, line, isSynthOp), st2)"
      and br: "callStack st' = callStack st1
                 \<and> (sources st' = sources st2
                     \<or> st' = increaseLineGasCost source line (getGasCost (logs ! i)) False st2)
               \<or> (\<exists>target isCons.
                     callStack st' =
                       (callStack st1)[k := (callStack st1 ! k)
                          \<lparr>outgoingCallSource := source, outgoingCallLine := line,
                           gasBeforeOutgoingCall := gas (logs ! i)\<rparr>]
                       @ [(makeCallStackItem target)
                            \<lparr>isConstructionCall := isCons, gasBefore := gas (logs ! Suc i)\<rparr>])
                  \<and> sources st' = sources st2
                  \<and> Suc i < length logs \<and> depth (logs ! i) < depth (logs ! Suc i)"
    unfolding k_def by blast
  have dk: "depth (logs ! i) = b + int k" using d0 by (simp add: k_def)
  \<comment> \<open>the stack after unwinding\<close>
  from unwind_frame [OF u] obtain n where "callStack st1 = take n ?cs" by auto
  with lk have t: "callStack st1 = take (Suc k) ?cs"
    using take_of_length [of n ?cs "Suc k"] by simp
  have le: "Suc k \<le> length ?cs"
  proof -
    have "length (take (Suc k) ?cs) = Suc k" using lk t by simp
    then show ?thesis by simp
  qed
  have nth1: "callStack st1 ! j = ?cs ! j" if "j \<le> k" for j using that by (simp add: t)
  \<comment> \<open>the frames that were waiting before the step and still are\<close>
  have old: "\<exists>i' < Suc i. depth (logs ! i') = b + int j
                \<and> depth (logs ! i') < depth (logs ! Suc i')
                \<and> gasBeforeOutgoingCall (?cs ! j) = gas (logs ! i')
                \<and> (\<forall>t. i' < t \<and> t < Suc i \<longrightarrow> depth (logs ! i') < depth (logs ! t))"
    if "j < k" for j
  proof -
    from that le have "Suc j < length ?cs" by simp
    with pend obtain i' where i': "i' < i" and d: "depth (logs ! i') = b + int j"
      and c: "depth (logs ! i') < depth (logs ! Suc i')"
      and gb: "gasBeforeOutgoingCall (?cs ! j) = gas (logs ! i')"
      and dp: "\<forall>t. i' < t \<and> t < i \<longrightarrow> depth (logs ! i') < depth (logs ! t)"
      unfolding pendingCalls_def by blast
    have "depth (logs ! i') < depth (logs ! i)" using that d dk by simp
    with dp have "\<forall>t. i' < t \<and> t < Suc i \<longrightarrow> depth (logs ! i') < depth (logs ! t)"
      by (auto simp: less_Suc_eq)
    with i' d c gb show ?thesis by (intro exI [of _ i']) simp
  qed
  \<comment> \<open>the line gas after unwinding and resolving the position\<close>
  have "list_all lineGasNonneg (unwindPoints logs b i (warnGasCost (logs ! i) st))
        \<and> (\<forall>st1. unwind logs b i (warnGasCost (logs ! i) st) = Inr st1
                 \<longrightarrow> lineGasNonneg st1 \<and> lineGasBelow st1)"
    by (rule unwind_nonneg [OF i tr _ _ below]) (simp_all add: pend nonneg)
  with u have "lineGasNonneg st1 \<and> lineGasBelow st1" by blast
  then have "lineGasWithin 2147483647 st1" by (simp add: lineGasWithin_iff)
  from getSourcePosition_within [OF g this] have "lineGasWithin 2147483647 st2" .
  then have n2: "lineGasNonneg st2" and b2: "lineGasBelow st2" by (simp_all add: lineGasWithin_iff)
  from br show ?thesis
  proof
    assume "callStack st' = callStack st1
            \<and> (sources st' = sources st2
                \<or> st' = increaseLineGasCost source line (getGasCost (logs ! i)) False st2)"
    then have cs': "callStack st' = callStack st1"
      and so: "sources st' = sources st2
               \<or> st' = increaseLineGasCost source line (getGasCost (logs ! i)) False st2"
      by simp_all
    have "lineGasNonneg st'"
      using so
    proof
      assume "sources st' = sources st2"
      with n2 show ?thesis by (rule lineGasNonneg_same)
    next
      assume "st' = increaseLineGasCost source line (getGasCost (logs ! i)) False st2"
      with increaseLineGasCost_nonneg [OF n2 b2 cost] show ?thesis by simp
    qed
    moreover have "pendingCalls logs b (Suc i) (callStack st')"
      unfolding pendingCalls_def
    proof (intro allI impI)
      fix j assume "Suc j < length (callStack st')"
      then have "j < k" by (simp add: cs' lk)
      with old [OF this] show "\<exists>i'<Suc i. depth (logs ! i') = b + int j
                \<and> depth (logs ! i') < depth (logs ! Suc i')
                \<and> gasBeforeOutgoingCall (callStack st' ! j) = gas (logs ! i')
                \<and> (\<forall>t. i' < t \<and> t < Suc i \<longrightarrow> depth (logs ! i') < depth (logs ! t))"
        by (simp add: cs' nth1)
    qed
    moreover have "0 < length (callStack st')"
      by (simp add: cs' lk)
    ultimately show ?thesis by (simp add: replayInv_def)
  next
    assume "(\<exists>target isCons.
               callStack st' =
                 (callStack st1)[k := (callStack st1 ! k)
                    \<lparr>outgoingCallSource := source, outgoingCallLine := line,
                     gasBeforeOutgoingCall := gas (logs ! i)\<rparr>]
                 @ [(makeCallStackItem target)
                      \<lparr>isConstructionCall := isCons, gasBefore := gas (logs ! Suc i)\<rparr>])
            \<and> sources st' = sources st2
            \<and> Suc i < length logs \<and> depth (logs ! i) < depth (logs ! Suc i)"
    then obtain target isCons
      where cs': "callStack st' =
                   (callStack st1)[k := (callStack st1 ! k)
                      \<lparr>outgoingCallSource := source, outgoingCallLine := line,
                       gasBeforeOutgoingCall := gas (logs ! i)\<rparr>]
                   @ [(makeCallStackItem target)
                        \<lparr>isConstructionCall := isCons, gasBefore := gas (logs ! Suc i)\<rparr>]"
      and so: "sources st' = sources st2"
      and nx: "Suc i < length logs" and dp: "depth (logs ! i) < depth (logs ! Suc i)"
      by blast
    have l': "length (callStack st') = Suc (Suc k)" by (simp add: cs' lk)
    from n2 so have "lineGasNonneg st'" by (rule lineGasNonneg_same)
    moreover have "pendingCalls logs b (Suc i) (callStack st')"
      unfolding pendingCalls_def
    proof (intro allI impI)
      fix j assume "Suc j < length (callStack st')"
      then have jk: "j \<le> k" by (simp add: l')
      show "\<exists>i'<Suc i. depth (logs ! i') = b + int j
                \<and> depth (logs ! i') < depth (logs ! Suc i')
                \<and> gasBeforeOutgoingCall (callStack st' ! j) = gas (logs ! i')
                \<and> (\<forall>t. i' < t \<and> t < Suc i \<longrightarrow> depth (logs ! i') < depth (logs ! t))"
      proof (cases "j = k")
        case True
        have "gasBeforeOutgoingCall (callStack st' ! k) = gas (logs ! i)"
          by (simp add: cs' lk nth_append)
        with True dk dp show ?thesis by (intro exI [of _ i]) auto
      next
        case False
        with jk have "j < k" by simp
        moreover from this have "callStack st' ! j = ?cs ! j"
          by (simp add: cs' lk nth_append nth1)
        ultimately show ?thesis using old [of j] by simp
      qed
    qed
    moreover have "0 < length (callStack st')"
      by (simp add: l')
    ultimately show ?thesis by (simp add: replayInv_def)
  qed
qed

lemma replayPoints_nonneg:
  assumes tr: "chargesNonneg logs" and m: "m \<le> length logs"
  shows "replayInv logs b i st \<Longrightarrow> list_all lineGasBelow (replayPoints e logs b [i..<m] st) \<Longrightarrow>
         list_all lineGasNonneg (replayPoints e logs b [i..<m] st)
         \<and> (\<forall>st'. runSteps (step e logs b) [i..<m] st = Inr st' \<longrightarrow> lineGasNonneg st')"
proof (induction "m - i" arbitrary: i st)
  case 0
  then have "m \<le> i" by simp
  with "0.prems"(1) show ?case by (simp add: replayInv_def)
next
  case (Suc n)
  from Suc.hyps(2) have im: "i < m" by simp
  then have l: "[i..<m] = i # [Suc i..<m]" by (rule upt_conv_Cons)
  from im m have il: "i < length logs" by simp
  from Suc.prems(2) have bu: "list_all lineGasBelow (unwindPoints logs b i (warnGasCost (logs ! i) st))"
    by (simp add: l)
  from Suc.prems(1) have pend: "pendingCalls logs b i (callStack st)" and nonneg: "lineGasNonneg st"
    by (simp_all add: replayInv_def)
  have "list_all lineGasNonneg (unwindPoints logs b i (warnGasCost (logs ! i) st))
        \<and> (\<forall>st1. unwind logs b i (warnGasCost (logs ! i) st) = Inr st1
                 \<longrightarrow> lineGasNonneg st1 \<and> lineGasBelow st1)"
    by (rule unwind_nonneg [OF il tr _ _ bu]) (simp_all add: pend nonneg)
  then have nu: "list_all lineGasNonneg (unwindPoints logs b i (warnGasCost (logs ! i) st))" by simp
  show ?case
  proof (cases "step e logs b i st")
    case (Inl err)
    with nu show ?thesis by (simp add: l)
  next
    case (Inr st1)
    from step_inv [OF Inr Suc.prems(1) il tr bu] have inv1: "replayInv logs b (Suc i) st1" .
    from Suc.prems(2) Inr have br: "list_all lineGasBelow (replayPoints e logs b [Suc i..<m] st1)"
      by (simp add: l)
    from Suc.hyps(2) have "n = m - Suc i" by simp
    from Suc.hyps(1) [OF this inv1 br] nu Inr show ?thesis by (simp add: l)
  qed
qed

lemma main_lineGas_nonneg:
  assumes "main e rcpt tx logs = Inr st" and "chargesNonneg logs"
    and "list_all lineGasBelow (mainPoints e rcpt tx logs)"
  shows "lineGasNonneg st"
proof -
  let ?entryAddr = "if \<not> truthy (tx_to tx) \<and> truthy (contractAddress rcpt)
                    then contractAddress rcpt else tx_to tx"
  let ?st0 = "warn (GasUsed (gasUsed rcpt)) initialState"
  from assms(1) obtain r st1 where c: "getContractWithAddr e ?entryAddr ?st0 = Inr (r, st1)"
    and ta: "truthy ?entryAddr"
    by (auto simp: main_def Let_def split: if_splits sum.splits)
  from getContractWithAddr_sources [OF c] have s1: "sources st1 = []"
    by (simp add: initialState_def)
  from getContractWithAddr_quiet [OF c] obtain key where r: "r = Some key" by auto
  let ?entryCall = "(makeCallStackItem (Some key))
                      \<lparr>isConstructionCall := \<not> truthy (tx_to tx) \<and> truthy (contractAddress rcpt)\<rparr>"
  from assms(1) c r obtain st2
    where ne: "logs \<noteq> []"
      and rp: "replay e logs (depth (logs ! 0)) (st1\<lparr>callStack := [?entryCall]\<rparr>) = Inr st2"
      and st: "sources st = sources st2"
    by (auto simp: main_def Let_def split: if_splits sum.splits)
  from assms(3) c r ne ta
  have pb: "list_all lineGasBelow
              (replayPoints e logs (depth (logs ! 0)) [0..<length logs] (st1\<lparr>callStack := [?entryCall]\<rparr>))"
    by (simp add: mainPoints_def Let_def split: if_splits)
  have i: "replayInv logs (depth (logs ! 0)) 0 (st1\<lparr>callStack := [?entryCall]\<rparr>)"
    by (simp add: replayInv_def pendingCalls_def lineGasNonneg_def s1)
  from replayPoints_nonneg [OF assms(2) order_refl i pb] rp
  have "lineGasNonneg st2" by (simp add: replay_def)
  with st show ?thesis by (simp add: lineGasNonneg_def)
qed

text \<open>
  C8, as the code has it: on a trace on which no charge is negative (the gas cost of
  each log after getGasCost, which zeroes a negative cost only for RETURN, REVERT and
  STOP; and no more gas left after a nested call has returned than before the call), and
  as long as every accumulated entry stays below \<open>2^31\<close>, every accumulated entry of
  every source is greater than or equal to zero at every point of the replay and after
  it. The replay starts with one frame and no negative entry, as it does in main.
\<close>

theorem replay_lineGas_nonneg:
  assumes "chargesNonneg logs"
    and "list_all lineGasBelow (replayPoints e logs b [0..<length logs] st0)"
    and "length (callStack st0) = 1" and "lineGasNonneg st0"
  shows "list_all lineGasNonneg (replayPoints e logs b [0..<length logs] st0)
         \<and> (\<forall>st'. replay e logs b st0 = Inr st' \<longrightarrow> lineGasNonneg st')"
proof -
  have i: "replayInv logs b 0 st0"
    using assms(3,4) by (simp add: replayInv_def pendingCalls_def)
  from replayPoints_nonneg [OF assms(1) order_refl i assms(2)] show ?thesis
    by (simp add: replay_def)
qed

theorem replay_lineGas_nonneg_witness:
  "chargesNonneg exTraceGanache
   \<and> list_all lineGasBelow (replayPoints exEnv exTraceGanache 1 [0..<length exTraceGanache] exState0)
   \<and> length (callStack exState0) = 1 \<and> lineGasNonneg exState0
   \<and> length (replayPoints exEnv exTraceGanache 1 [0..<length exTraceGanache] exState0) = 6
   \<and> list_all lineGasNonneg (replayPoints exEnv exTraceGanache 1 [0..<length exTraceGanache] exState0)
   \<and> (\<exists>st'. replay exEnv exTraceGanache 1 exState0 = Inr st' \<and> lineGasNonneg st'
            \<and> lineGasAt 0 0 st' = Some 100 \<and> lineGasAt 0 1 st' = Some 0)"
proof -
  have t: "chargesNonneg exTraceGanache"
    by (simp add: chargesNonneg_def callReturns_def exTraceGanache_def getGasCost_def getGasCostWarns_def
        upt_rec_numeral)
  have p: "list_all lineGasBelow (replayPoints exEnv exTraceGanache 1 [0..<length exTraceGanache] exState0)"
    by (simp add: engine_eval example_eval unwindPoints.simps lineGasBelow_def)
  have n: "length (replayPoints exEnv exTraceGanache 1 [0..<length exTraceGanache] exState0) = 6"
    by (simp add: engine_eval example_eval unwindPoints.simps)
  have c: "length (callStack exState0) = 1" and s: "lineGasNonneg exState0"
    by (simp_all add: exState0_def lineGasNonneg_def)
  have "\<exists>st'. replay exEnv exTraceGanache 1 exState0 = Inr st'
          \<and> lineGasAt 0 0 st' = Some 100 \<and> lineGasAt 0 1 st' = Some 0"
    by (simp add: engine_eval example_eval)
  then obtain st' where r: "replay exEnv exTraceGanache 1 exState0 = Inr st'"
    and v: "lineGasAt 0 0 st' = Some 100" "lineGasAt 0 1 st' = Some 0" by blast
  from replay_lineGas_nonneg [OF t p c s] r
  have "list_all lineGasNonneg (replayPoints exEnv exTraceGanache 1 [0..<length exTraceGanache] exState0)"
    and "lineGasNonneg st'" by simp_all
  with t p n c s r v show ?thesis by blast
qed

end
